theory Spec2Isabelle
  imports Main "HOL-Library.Word" "HOL-Library.Signed_Division" "HOL-Library.Log_Nat"
begin

section \<open>Machine types and library constants\<close>

text \<open>
  The backend is written for a 32-bit ARM Linux target (GStreamer 0.10, the
  \<^verbatim>\<open>mixersink\<close> element): \<^verbatim>\<open>int\<close> and \<^verbatim>\<open>unsigned long\<close> are 32 bits wide,
  \<^verbatim>\<open>gint64\<close> and \<^verbatim>\<open>GstClockTime\<close> (a \<^verbatim>\<open>guint64\<close>) are 64 bits wide.
  Words wrap around; \<open><\<close> on words is the unsigned order, \<open><s\<close> the signed one.
\<close>

type_synonym cint = "32 word"
type_synonym ulong = "32 word"
type_synonym uint32 = "32 word"
type_synonym gint64 = "64 word"
type_synonym GstClockTime = "64 word"

text \<open>GStreamer's \<^verbatim>\<open>GST_SECOND\<close>: the number of clock ticks (nanoseconds) in a second.\<close>

definition GST_SECOND :: gint64 where
  "GST_SECOND = 1000000000"

text \<open>GStreamer's \<^verbatim>\<open>GST_CLOCK_TIME_NONE\<close> is \<^verbatim>\<open>(GstClockTime) -1\<close>.\<close>

definition GST_CLOCK_TIME_NONE :: GstClockTime where
  "GST_CLOCK_TIME_NONE = - 1"

definition GST_CLOCK_TIME_IS_VALID :: "GstClockTime \<Rightarrow> bool" where
  "GST_CLOCK_TIME_IS_VALID t = (t \<noteq> GST_CLOCK_TIME_NONE)"

text \<open>The \<^verbatim>\<open>errno\<close> value of a write to a pipe whose reader is gone (Linux).\<close>

definition EPIPE :: int where
  "EPIPE = 32"

section \<open>Observable actions\<close>

text \<open>
  Every call into GStreamer, GLib, pthreads, the demuxer, the AAC decoder and the
  operating system is recorded, in program order, as an event. The log of a thread is
  the list of the events it has issued so far.
\<close>

datatype GstState =
    GST_STATE_VOID_PENDING
  | GST_STATE_NULL
  | GST_STATE_READY
  | GST_STATE_PAUSED
  | GST_STATE_PLAYING

datatype event =
    G_print string
  | G_printerr string
  | Perror string
  | Unlink_pipe
  | Mkfifo_pipe
  | Gst_parse_launch cint
  | Gst_bus_add_watch
  | G_source_remove nat
  | Gst_element_set_state GstState
  | Gst_object_unref
  | Pthread_create
  | Pthread_join nat
  | Eos_callback nat nat
  | Lock_mp4_mutex
  | Unlock_mp4_mutex
  | Mp4read_open string
  | Mp4read_seek nat
  | Mp4read_frame
  | Mp4read_close
  | NeAACDecOpen
  | NeAACDecSetConfiguration
  | NeAACDecInit2
  | NeAACDecDecode
  | NeAACDecClose
  | Open_pipe
  | Write_pipe nat
  | Close_pipe

section \<open>The rendering pipeline as the backend sees it\<close>

text \<open>
  A pipeline object: its state, the reading of its clock (\<open>None\<close> when
  \<^verbatim>\<open>gst_element_get_clock\<close> returns \<^verbatim>\<open>NULL\<close>), its base time and the answer of
  \<^verbatim>\<open>gst_element_query_duration\<close> (\<open>None\<close> when the query fails).
\<close>

record GstElement =
  gst_state :: GstState
  clock :: "GstClockTime option"
  base_time :: GstClockTime
  query_duration :: "gint64 option"

section \<open>Decoder: thread control\<close>

record Decoder =
  stop_flag :: bool
  running :: bool
  thread_id :: nat
  current_filepath :: string
  start_time :: cint

definition Decoder_init :: "Decoder \<times> event list" where
  "Decoder_init =
     (\<lparr>stop_flag = False, running = False, thread_id = 0,
       current_filepath = [], start_time = 0\<rparr>,
      [Unlink_pipe, Mkfifo_pipe])"

text \<open>\<^verbatim>\<open>Decoder::stop\<close>: sets the flag and joins the worker.\<close>

definition Decoder_stop :: "Decoder \<Rightarrow> Decoder \<times> event list" where
  "Decoder_stop d =
     (if \<not> running d then (d, [])
      else
        let d1 = d\<lparr>stop_flag := True\<rparr>;
            (d2, ev) =
              (if thread_id d1 \<noteq> 0
               then (d1\<lparr>thread_id := 0\<rparr>, [Pthread_join (thread_id d1)])
               else (d1, []))
        in (d2\<lparr>running := False\<rparr>, ev))"

text \<open>
  \<^verbatim>\<open>Decoder::start\<close>. The outcome of \<^verbatim>\<open>pthread_create\<close> is an input:
  \<open>None\<close> when it fails, \<open>Some tid\<close> with the new thread's id otherwise.
\<close>

definition Decoder_start ::
  "Decoder \<Rightarrow> string \<Rightarrow> cint \<Rightarrow> nat option \<Rightarrow> Decoder \<times> event list \<times> bool" where
  "Decoder_start d fp st created =
     (let (d0, ev0) = (if running d then Decoder_stop d else (d, []));
          d1 = d0\<lparr>current_filepath := fp, start_time := st,
                  stop_flag := False, running := True\<rparr>
      in case created of
           None \<Rightarrow>
             (d1\<lparr>running := False\<rparr>,
              ev0 @ [Pthread_create, Perror ''Decoder: Failed to create thread''], False)
         | Some tid \<Rightarrow> (d1\<lparr>thread_id := tid\<rparr>, ev0 @ [Pthread_create], True))"

definition Decoder_is_running :: "Decoder \<Rightarrow> bool" where
  "Decoder_is_running d = running d"

section \<open>MusicBackend: the transport controller\<close>

record MusicBackend =
  is_playing :: bool
  is_paused :: bool
  pipeline :: "GstElement option"
  bus_watch_id :: nat
  stopping :: bool
  on_eos_callback :: "nat option"
  eos_user_data :: nat
  last_position :: gint64
  current_samplerate :: cint
  total_duration :: gint64
  current_filepath_str :: string
  meta_title :: string
  meta_artist :: string
  meta_album :: string
  cover_art :: "8 word list"
  decoder :: Decoder
  events :: "event list"

definition MusicBackend_init :: MusicBackend where
  "MusicBackend_init =
     \<lparr>is_playing = False, is_paused = False, pipeline = None, bus_watch_id = 0,
      stopping = False, on_eos_callback = None, eos_user_data = 0,
      last_position = 0, current_samplerate = 44100, total_duration = 0,
      current_filepath_str = [], meta_title = [], meta_artist = [], meta_album = [],
      cover_art = [], decoder = fst Decoder_init, events = snd Decoder_init\<rparr>"

definition is_shutting_down :: "MusicBackend \<Rightarrow> bool" where
  "is_shutting_down s = stopping s"

definition get_current_filepath :: "MusicBackend \<Rightarrow> string" where
  "get_current_filepath s = current_filepath_str s"

definition set_eos_callback :: "nat option \<Rightarrow> nat \<Rightarrow> MusicBackend \<Rightarrow> MusicBackend" where
  "set_eos_callback callback user_data s =
     s\<lparr>on_eos_callback := callback, eos_user_data := user_data\<rparr>"

definition emit :: "event list \<Rightarrow> MusicBackend \<Rightarrow> MusicBackend" where
  "emit ev s = s\<lparr>events := events s @ ev\<rparr>"

definition get_duration :: "MusicBackend \<Rightarrow> gint64" where
  "get_duration s =
     (if 0 <s total_duration s then total_duration s
      else case pipeline s of
             Some p \<Rightarrow> (case query_duration p of Some d \<Rightarrow> d | None \<Rightarrow> 0)
           | None \<Rightarrow> 0)"

text \<open>
  \<^verbatim>\<open>get_position\<close>. \<^verbatim>\<open>(gint64)(current_time - base_time) + last_position\<close> is
  computed on 64-bit words.
\<close>

definition get_position :: "MusicBackend \<Rightarrow> gint64" where
  "get_position s =
     (if is_paused s then last_position s
      else case pipeline s of
             Some p \<Rightarrow>
               (if is_playing s then
                  (case clock p of
                     Some current_time \<Rightarrow>
                       (if GST_CLOCK_TIME_IS_VALID (base_time p) \<and> base_time p < current_time
                        then (current_time - base_time p) + last_position s
                        else last_position s)
                   | None \<Rightarrow> last_position s)
                else last_position s)
           | None \<Rightarrow> last_position s)"

definition cleanup_pipeline :: "MusicBackend \<Rightarrow> MusicBackend" where
  "cleanup_pipeline s =
     (let s1 = (if 0 < bus_watch_id s
                then emit [G_source_remove (bus_watch_id s)] (s\<lparr>bus_watch_id := 0\<rparr>)
                else s)
      in case pipeline s1 of
           Some p \<Rightarrow>
             emit [Gst_element_set_state GST_STATE_NULL, Gst_object_unref]
               (s1\<lparr>pipeline := None\<rparr>)
         | None \<Rightarrow> s1)"

text \<open>\<^verbatim>\<open>MusicBackend::stop\<close>.\<close>

definition stop :: "MusicBackend \<Rightarrow> MusicBackend" where
  "stop s =
     (if stopping s then s
      else
        let s1 = s\<lparr>stopping := True\<rparr>;
            s2 = (case pipeline s1 of
                    Some p \<Rightarrow>
                      emit [Gst_element_set_state GST_STATE_NULL]
                        (s1\<lparr>pipeline := Some (p\<lparr>gst_state := GST_STATE_NULL\<rparr>)\<rparr>)
                  | None \<Rightarrow> s1);
            (d, ev) = Decoder_stop (decoder s2);
            s3 = emit ev (s2\<lparr>decoder := d\<rparr>);
            s4 = cleanup_pipeline s3
        in s4\<lparr>stopping := False, is_playing := False, is_paused := False\<rparr>)"

text \<open>
  \<^verbatim>\<open>MusicBackend::play_file\<close>. What the environment answers is an input: the
  pipeline \<^verbatim>\<open>gst_parse_launch\<close> returns (\<open>None\<close> for \<^verbatim>\<open>NULL\<close>), the id
  \<^verbatim>\<open>gst_bus_add_watch\<close> returns and the outcome of \<^verbatim>\<open>pthread_create\<close>.
\<close>

record play_env =
  parse_launch :: "GstElement option"
  add_watch :: nat
  thread_create :: "nat option"

definition play_file :: "play_env \<Rightarrow> string \<Rightarrow> cint \<Rightarrow> MusicBackend \<Rightarrow> MusicBackend" where
  "play_file env fp st s =
     (if stopping s then s
      else
        let s0 = (if is_playing s \<or> is_paused s then stop s else s);
            s1 = (emit [G_print ''Backend: Playing''] s0)
                   \<lparr>current_filepath_str := fp, is_playing := True, is_paused := False,
                    last_position := scast st * GST_SECOND\<rparr>;
            rate = (if 0 <s current_samplerate s1 then current_samplerate s1 else 44100);
            s2 = emit [Gst_parse_launch rate] (s1\<lparr>pipeline := parse_launch env\<rparr>)
        in case pipeline s2 of
             None \<Rightarrow>
               (emit [G_printerr ''Backend: Failed to create pipeline''] s2)
                 \<lparr>is_playing := False\<rparr>
           | Some p \<Rightarrow>
               let s3 = emit [Gst_bus_add_watch] (s2\<lparr>bus_watch_id := add_watch env\<rparr>);
                   (d, ev, ok) = Decoder_start (decoder s3) fp st (thread_create env);
                   s4 = emit ev (s3\<lparr>decoder := d\<rparr>)
               in if \<not> ok then cleanup_pipeline s4
                  else emit [Gst_element_set_state GST_STATE_PLAYING]
                         (s4\<lparr>pipeline := Some (p\<lparr>gst_state := GST_STATE_PLAYING\<rparr>)\<rparr>))"

text \<open>\<^verbatim>\<open>MusicBackend::pause\<close>: pauses when playing, resumes when paused.\<close>

definition pause :: "MusicBackend \<Rightarrow> MusicBackend" where
  "pause s =
     (case pipeline s of
        None \<Rightarrow> s
      | Some p \<Rightarrow>
          if \<not> is_playing s then s
          else if is_paused s then
            let s1 = (case clock p of
                        Some current_time \<Rightarrow>
                          (if GST_CLOCK_TIME_IS_VALID (base_time p) \<and> base_time p < current_time
                           then s\<lparr>last_position :=
                                     last_position s - (current_time - base_time p)\<rparr>
                           else s)
                      | None \<Rightarrow> s)
            in (emit [Gst_element_set_state GST_STATE_PLAYING]
                  (s1\<lparr>pipeline := Some (p\<lparr>gst_state := GST_STATE_PLAYING\<rparr>)\<rparr>))
                 \<lparr>is_paused := False\<rparr>
          else
            (emit [Gst_element_set_state GST_STATE_PAUSED]
               (s\<lparr>last_position := get_position s,
                  pipeline := Some (p\<lparr>gst_state := GST_STATE_PAUSED\<rparr>)\<rparr>))
              \<lparr>is_paused := True\<rparr>)"

text \<open>\<^verbatim>\<open>MusicBackend::bus_callback_func\<close>; the result \<^verbatim>\<open>TRUE\<close> keeps the watch.\<close>

datatype GstMessage =
    GST_MESSAGE_EOS
  | GST_MESSAGE_ERROR string
  | GST_MESSAGE_OTHER

definition bus_callback_func :: "GstMessage \<Rightarrow> MusicBackend \<Rightarrow> bool \<times> MusicBackend" where
  "bus_callback_func msg s =
     (case msg of
        GST_MESSAGE_EOS \<Rightarrow>
          (let s1 = stop (emit [G_print ''Backend: EOS reached.''] s)
           in (True,
               case on_eos_callback s1 of
                 Some cb \<Rightarrow> emit [Eos_callback cb (eos_user_data s1)] s1
               | None \<Rightarrow> s1))
      | GST_MESSAGE_ERROR err \<Rightarrow>
          (True, stop (emit [G_printerr (''Backend: Error: '' @ err)] s))
      | GST_MESSAGE_OTHER \<Rightarrow> (True, s))"

section \<open>The demuxer's configuration\<close>

text \<open>
  Modelled from the spec: the global \<^verbatim>\<open>mp4config\<close> is declared in
  \<^verbatim>\<open>mpeg4/mp4read.h\<close>, which is not among the sources. These are the fields the
  backend reads: the tags and the cover art (\<open>None\<close> for a \<^verbatim>\<open>NULL\<close> pointer), the
  container-declared sample rate, the total sample count and the total frame count,
  all three taken as \<^verbatim>\<open>uint32_t\<close> as in the FAAD2 front end this header comes from.
\<close>

record mp4config_t =
  mp4_meta_title :: "string option"
  mp4_meta_artist :: "string option"
  mp4_meta_album :: "string option"
  mp4_cover_art :: "8 word list option"
  mp4_samplerate :: uint32
  mp4_samples :: uint32
  mp4_frame_nsamples :: uint32

section \<open>Reading metadata\<close>

text \<open>C's division of two \<^verbatim>\<open>gint64\<close> values truncates towards zero.\<close>

definition gint64_div :: "gint64 \<Rightarrow> gint64 \<Rightarrow> gint64" where
  "gint64_div a b = word_of_int (sint a sdiv sint b)"

text \<open>
  What the libraries answer during \<^verbatim>\<open>read_metadata\<close>: the configuration
  \<^verbatim>\<open>mp4read_open\<close> leaves behind (\<open>None\<close> when it fails), whether
  \<^verbatim>\<open>NeAACDecOpen\<close> returns a handle, and the sample rate and channel count of
  \<^verbatim>\<open>NeAACDecInit2\<close> (\<open>None\<close> when it fails).
\<close>

record meta_env =
  md_mp4read_open :: "mp4config_t option"
  md_NeAACDecOpen :: bool
  md_NeAACDecInit2 :: "(ulong \<times> 8 word) option"

definition read_metadata :: "meta_env \<Rightarrow> string option \<Rightarrow> MusicBackend \<Rightarrow> MusicBackend" where
  "read_metadata env filepath s =
     (let s1 = (emit [Lock_mp4_mutex] s)
                 \<lparr>meta_title := [], meta_artist := [], meta_album := [], cover_art := []\<rparr>
      in case filepath of
           None \<Rightarrow> emit [Unlock_mp4_mutex] s1
         | Some path \<Rightarrow>
             (case md_mp4read_open env of
                Some cfg \<Rightarrow>
                  let s2 = (emit [Mp4read_open path] s1)
                             \<lparr>meta_title :=
                                (case mp4_meta_title cfg of Some x \<Rightarrow> x | None \<Rightarrow> []),
                              meta_artist :=
                                (case mp4_meta_artist cfg of Some x \<Rightarrow> x | None \<Rightarrow> []),
                              meta_album :=
                                (case mp4_meta_album cfg of Some x \<Rightarrow> x | None \<Rightarrow> []),
                              cover_art :=
                                (case mp4_cover_art cfg of
                                   Some bytes \<Rightarrow> (if 0 < length bytes then bytes else [])
                                 | None \<Rightarrow> [])\<rparr>;
                      s3 = (if md_NeAACDecOpen env then
                              (let s' = emit [NeAACDecOpen, NeAACDecSetConfiguration,
                                              NeAACDecInit2, NeAACDecClose] s2
                               in case md_NeAACDecInit2 env of
                                    Some (rate, channels) \<Rightarrow>
                                      (if 0 < rate then s'\<lparr>current_samplerate := rate\<rparr> else s')
                                  | None \<Rightarrow> s')
                            else emit [NeAACDecOpen] s2);
                      s4 = s3\<lparr>total_duration :=
                                (if 0 < mp4_samplerate cfg \<and> 0 < mp4_samples cfg
                                 then gint64_div (ucast (mp4_samples cfg) * GST_SECOND)
                                        (ucast (mp4_samplerate cfg))
                                 else 0)\<rparr>
                  in emit [Mp4read_close, Unlock_mp4_mutex] s4
              | None \<Rightarrow>
                  emit [Mp4read_open path,
                        G_printerr ''Backend: Failed to read metadata'', Unlock_mp4_mutex] s1))"

section \<open>IEEE 754 binary64 arithmetic\<close>

text \<open>
  The seek position is computed in \<^verbatim>\<open>double\<close>. A finite double is a rational number;
  every operation returns the exact result rounded to 53 significant bits (to nearest,
  ties to even), with the fixed spacing \<open>2 powi (- 1074)\<close> below the normal range.
  \<open>NonFinite\<close> stands for the infinities and NaN.
\<close>

definition round_half_even :: "rat \<Rightarrow> int" where
  "round_half_even x =
     (let f = \<lfloor>x\<rfloor>; r = x - of_int f
      in if r < 1 / 2 then f
         else if 1 / 2 < r then f + 1
         else if even f then f else f + 1)"

text \<open>For positive \<open>x\<close>, the exponent \<open>e\<close> with \<open>2 powi e \<le> x < 2 powi (e + 1)\<close>.\<close>

definition ilog2 :: "rat \<Rightarrow> int" where
  "ilog2 x =
     (let (a, b) = quotient_of x;
          d = bitlen a - bitlen b
      in if 2 powi d \<le> x then d else d - 1)"

definition round_double :: "rat \<Rightarrow> rat" where
  "round_double x =
     (if x = 0 then 0
      else let e = max (ilog2 \<bar>x\<bar>) (- 1022);
               u = 2 powi (e - 52)
           in sgn x * of_int (round_half_even (\<bar>x\<bar> / u)) * u)"

datatype double = Finite rat | NonFinite

definition to_double :: "rat \<Rightarrow> double" where
  "to_double x =
     (let y = round_double x
      in if y = 0 \<or> ilog2 \<bar>y\<bar> < 1024 then Finite y else NonFinite)"

fun double_mul :: "double \<Rightarrow> double \<Rightarrow> double" where
  "double_mul (Finite a) (Finite b) = to_double (a * b)"
| "double_mul _ _ = NonFinite"

fun double_div :: "double \<Rightarrow> double \<Rightarrow> double" where
  "double_div (Finite a) (Finite b) = (if b = 0 then NonFinite else to_double (a / b))"
| "double_div _ _ = NonFinite"

text \<open>
  The conversion to \<^verbatim>\<open>unsigned long\<close> truncates towards zero; it is undefined
  (\<open>None\<close>) when the truncated value is not representable.
\<close>

definition truncate_rat :: "rat \<Rightarrow> int" where
  "truncate_rat x = (if 0 \<le> x then \<lfloor>x\<rfloor> else - \<lfloor>- x\<rfloor>)"

fun double_to_ulong :: "double \<Rightarrow> ulong option" where
  "double_to_ulong (Finite x) =
     (let t = truncate_rat x
      in if 0 \<le> t \<and> t < 2 ^ 32 then Some (word_of_int t) else None)"
| "double_to_ulong NonFinite = None"

section \<open>Decoder: the worker thread\<close>

definition samples_per_frame :: "mp4config_t \<Rightarrow> ulong" where
  "samples_per_frame cfg =
     (if 0 < mp4_frame_nsamples cfg \<and> 0 < mp4_samples cfg
      then mp4_samples cfg div mp4_frame_nsamples cfg
      else 1024)"

text \<open>
  \<^verbatim>\<open>(unsigned long)((double)start_time * samplerate / samples_per_frame)\<close>.
\<close>

definition target_frame :: "cint \<Rightarrow> ulong \<Rightarrow> ulong \<Rightarrow> ulong option" where
  "target_frame st samplerate spf =
     double_to_ulong
       (double_div
          (double_mul (to_double (of_int (sint st))) (to_double (of_nat (unat samplerate))))
          (to_double (of_nat (unat spf))))"

text \<open>
  The seek stage of \<^verbatim>\<open>decode_loop\<close>. \<open>seek_ok n\<close> tells whether
  \<^verbatim>\<open>mp4read_seek(n)\<close> returns 0. The result is the events issued and the frame index the
  demuxer has been positioned at by a successful seek, \<open>None\<close> when none succeeded and
  the demuxer is where \<^verbatim>\<open>mp4read_open\<close> left it. The outer \<open>None\<close> is the undefined
  conversion of the target frame.
\<close>

definition seek_stage ::
  "cint \<Rightarrow> ulong \<Rightarrow> mp4config_t \<Rightarrow> (nat \<Rightarrow> bool) \<Rightarrow> (event list \<times> nat option) option" where
  "seek_stage st samplerate cfg seek_ok =
     (if 0 <s st then
        (case target_frame st samplerate (samples_per_frame cfg) of
           None \<Rightarrow> None
         | Some tf \<Rightarrow>
             Some (if tf < mp4_frame_nsamples cfg then
                     (if seek_ok (unat tf)
                      then ([Mp4read_seek (unat tf), G_print ''Decoder: Seeked''],
                            Some (unat tf))
                      else ([Mp4read_seek (unat tf), G_printerr ''Decoder: Failed to seek''],
                            None))
                   else ([], None)))
      else Some ([Mp4read_seek 0], if seek_ok 0 then Some 0 else None))"

text \<open>
  One compressed frame as the loop meets it: the error code and the sample count
  \<^verbatim>\<open>NeAACDecDecode\<close> reports for it, and what \<^verbatim>\<open>write\<close> answers when its samples are
  written: the number of bytes, or \<open>-1\<close> with an \<^verbatim>\<open>errno\<close>.
\<close>

datatype write_result = Written nat | Write_failed int

record mp4_frame =
  frame_error :: "8 word"
  frame_samples :: ulong
  frame_write :: write_result

text \<open>
  The \<^verbatim>\<open>while (!stop_flag)\<close> loop over the frames \<^verbatim>\<open>mp4read_frame\<close> delivers; the
  list ends where \<^verbatim>\<open>mp4read_frame\<close> fails (end of data or read error).
  \<open>stop_at k\<close> is the value of \<^verbatim>\<open>stop_flag\<close>, which the control thread sets, at the
  \<open>k\<close>-th test of the loop condition.
\<close>

fun decode_frames :: "(nat \<Rightarrow> bool) \<Rightarrow> nat \<Rightarrow> mp4_frame list \<Rightarrow> event list" where
  "decode_frames stop_at k [] = (if stop_at k then [] else [Mp4read_frame])"
| "decode_frames stop_at k (f # fs) =
     (if stop_at k then []
      else Mp4read_frame # NeAACDecDecode #
        (if 0 < frame_error f then
           G_printerr ''Decoder: FAAD Warning'' # decode_frames stop_at (Suc k) fs
         else if 0 < frame_samples f then
           Write_pipe (unat (frame_samples f * 2)) #
             (case frame_write f of
                Write_failed e \<Rightarrow>
                  (if e = EPIPE then [] else [Perror ''Decoder: write error''])
              | Written n \<Rightarrow> decode_frames stop_at (Suc k) fs)
         else decode_frames stop_at (Suc k) fs))"

text \<open>
  What the worker's environment answers: the outcome of \<^verbatim>\<open>mp4read_open\<close>, of
  \<^verbatim>\<open>NeAACDecOpen\<close>, of \<^verbatim>\<open>NeAACDecInit2\<close>, of \<^verbatim>\<open>mp4read_seek\<close>, of opening the pipe,
  the stop flag, and the frames the demuxer delivers from the position it is at.
\<close>

record decode_env =
  de_mp4read_open :: "mp4config_t option"
  de_NeAACDecOpen :: bool
  de_NeAACDecInit2 :: "(ulong \<times> 8 word) option"
  de_mp4read_seek :: "nat \<Rightarrow> bool"
  de_open_pipe :: bool
  de_stop_flag :: "nat \<Rightarrow> bool"
  de_frames :: "nat option \<Rightarrow> mp4_frame list"

definition decode_loop :: "Decoder \<Rightarrow> decode_env \<Rightarrow> event list option" where
  "decode_loop d env =
     (let pre = [G_print ''Decoder: Starting'', Lock_mp4_mutex,
                 Mp4read_open (current_filepath d)]
      in case de_mp4read_open env of
           None \<Rightarrow>
             Some (pre @ [G_printerr ''Decoder: Failed to open file with mp4read'',
                          Unlock_mp4_mutex])
         | Some cfg \<Rightarrow>
             if \<not> de_NeAACDecOpen env then
               Some (pre @ [NeAACDecOpen, G_printerr ''Decoder: Failed to open FAAD2 decoder'',
                            Mp4read_close, Unlock_mp4_mutex])
             else
               (case de_NeAACDecInit2 env of
                  None \<Rightarrow>
                    Some (pre @ [NeAACDecOpen, NeAACDecSetConfiguration, NeAACDecInit2,
                                 G_printerr ''Decoder: Failed to initialize FAAD2 with ASC'',
                                 NeAACDecClose, Mp4read_close, Unlock_mp4_mutex])
                | Some (samplerate, channels) \<Rightarrow>
                    (case seek_stage (start_time d) samplerate cfg (de_mp4read_seek env) of
                       None \<Rightarrow> None
                     | Some (sev, pos) \<Rightarrow>
                         let ev = pre @ [NeAACDecOpen, NeAACDecSetConfiguration, NeAACDecInit2,
                                         G_print ''Decoder: Starting for''] @ sev @ [Open_pipe]
                         in if \<not> de_open_pipe env then
                              Some (ev @ [Perror ''Decoder: Failed to open pipe'',
                                          NeAACDecClose, Mp4read_close, Unlock_mp4_mutex])
                            else
                              Some (ev @
                                    decode_frames (de_stop_flag env) 0 (de_frames env pos) @
                                    [Close_pipe, NeAACDecClose, Mp4read_close,
                                     G_print ''Decoder: Thread exiting.'',
                                     Unlock_mp4_mutex]))))"

section \<open>Reachable states of the controller\<close>

text \<open>
  Between two calls the environment may change what the pipeline reports: its clock
  advances, its base time is set, its duration becomes known.
\<close>

definition pipeline_env ::
  "GstClockTime option \<Rightarrow> GstClockTime \<Rightarrow> gint64 option \<Rightarrow> MusicBackend \<Rightarrow> MusicBackend" where
  "pipeline_env c b d s =
     (case pipeline s of
        Some p \<Rightarrow>
          s\<lparr>pipeline := Some (p\<lparr>clock := c, base_time := b, query_duration := d\<rparr>)\<rparr>
      | None \<Rightarrow> s)"

text \<open>
  The states the controller can be in between two calls: the constructed backend, and
  every state one of the public entry points, a bus message or the environment leads to.
  Writing to the log leads from a reachable state to a reachable state, so that the
  states in which the bus handler enters \<^verbatim>\<open>stop\<close>, after its message, are covered.
\<close>

inductive reachable :: "MusicBackend \<Rightarrow> bool" where
  reach_init: "reachable MusicBackend_init"
| reach_play: "reachable s \<Longrightarrow> reachable (play_file env fp st s)"
| reach_pause: "reachable s \<Longrightarrow> reachable (pause s)"
| reach_stop: "reachable s \<Longrightarrow> reachable (stop s)"
| reach_bus: "reachable s \<Longrightarrow> reachable (snd (bus_callback_func msg s))"
| reach_set_eos: "reachable s \<Longrightarrow> reachable (set_eos_callback cb ud s)"
| reach_metadata: "reachable s \<Longrightarrow> reachable (read_metadata menv path s)"
| reach_env: "reachable s \<Longrightarrow> reachable (pipeline_env c b d s)"
| reach_log: "reachable s \<Longrightarrow> reachable (emit ev s)"

text \<open>
  What holds between calls: no stop is under way, a running worker has a pipeline to
  write to and belongs to a session marked as playing, and a paused session is a
  playing one.
\<close>

definition backend_inv :: "MusicBackend \<Rightarrow> bool" where
  "backend_inv s =
     (\<not> stopping s \<and>
      (running (decoder s) \<longrightarrow> pipeline s \<noteq> None \<and> is_playing s) \<and>
      (is_paused s \<longrightarrow> is_playing s))"

text \<open>The events a call of \<^verbatim>\<open>cleanup_pipeline\<close> and of \<^verbatim>\<open>stop\<close> issues.\<close>

definition cleanup_events :: "MusicBackend \<Rightarrow> event list" where
  "cleanup_events s =
     (if 0 < bus_watch_id s then [G_source_remove (bus_watch_id s)] else []) @
     (if pipeline s \<noteq> None
      then [Gst_element_set_state GST_STATE_NULL, Gst_object_unref] else [])"

definition stop_events :: "MusicBackend \<Rightarrow> event list" where
  "stop_events s =
     (if pipeline s \<noteq> None then [Gst_element_set_state GST_STATE_NULL] else []) @
     (if running (decoder s) \<and> thread_id (decoder s) \<noteq> 0
      then [Pthread_join (thread_id (decoder s))] else []) @
     cleanup_events s"

fun is_Eos_callback :: "event \<Rightarrow> bool" where
  "is_Eos_callback (Eos_callback cb ud) = True"
| "is_Eos_callback _ = False"

text \<open>A frame after which the loop goes on: skipped, empty, or written.\<close>

fun frame_passes :: "mp4_frame \<Rightarrow> bool" where
  "frame_passes f =
     (0 < frame_error f \<or> frame_samples f = 0 \<or>
      (case frame_write f of Written n \<Rightarrow> True | Write_failed e \<Rightarrow> False))"

text \<open>Inputs used in the examples below.\<close>

abbreviation example_pipeline :: GstElement where
  "example_pipeline \<equiv>
     \<lparr>gst_state = GST_STATE_NULL, clock = Some 50, base_time = 10, query_duration = None\<rparr>"

abbreviation example_play_env :: play_env where
  "example_play_env \<equiv>
     \<lparr>parse_launch = Some example_pipeline, add_watch = 5, thread_create = Some 7\<rparr>"

abbreviation example_config :: mp4config_t where
  "example_config \<equiv>
     \<lparr>mp4_meta_title = None, mp4_meta_artist = None, mp4_meta_album = None,
      mp4_cover_art = None, mp4_samplerate = 44100, mp4_samples = 1024000,
      mp4_frame_nsamples = 1000\<rparr>"

section \<open>Properties of the thread control and of the controller\<close>

lemma Decoder_stop_running: "\<not> running (fst (Decoder_stop d))"
  by (simp add: Decoder_stop_def Let_def)

lemma Decoder_stop_events:
  "snd (Decoder_stop d) =
     (if running d \<and> thread_id d \<noteq> 0 then [Pthread_join (thread_id d)] else [])"
  by (simp add: Decoder_stop_def Let_def)

lemma Decoder_start_result:
  "Decoder_start d fp st created = (d', ev, ok) \<Longrightarrow>
     running d' = (created \<noteq> None) \<and> ok = (created \<noteq> None)"
  by (auto simp add: Decoder_start_def Let_def split: option.splits prod.splits)

lemma cleanup_pipeline_fields:
  "pipeline (cleanup_pipeline s) = None"
  "decoder (cleanup_pipeline s) = decoder s"
  "stopping (cleanup_pipeline s) = stopping s"
  "is_playing (cleanup_pipeline s) = is_playing s"
  "is_paused (cleanup_pipeline s) = is_paused s"
  "last_position (cleanup_pipeline s) = last_position s"
  "current_filepath_str (cleanup_pipeline s) = current_filepath_str s"
  "on_eos_callback (cleanup_pipeline s) = on_eos_callback s"
  "eos_user_data (cleanup_pipeline s) = eos_user_data s"
  by (simp_all add: cleanup_pipeline_def emit_def Let_def split: option.splits)

lemma cleanup_pipeline_events:
  "events (cleanup_pipeline s) = events s @ cleanup_events s"
  by (simp add: cleanup_pipeline_def cleanup_events_def emit_def Let_def split: option.splits)

lemma stop_fields:
  assumes "\<not> stopping s"
  shows "\<not> stopping (stop s)" "\<not> is_playing (stop s)" "\<not> is_paused (stop s)"
    "pipeline (stop s) = None" "\<not> running (decoder (stop s))"
    "on_eos_callback (stop s) = on_eos_callback s"
    "eos_user_data (stop s) = eos_user_data s"
  using assms Decoder_stop_running [of "decoder s"]
  by (auto simp add: stop_def Let_def emit_def cleanup_pipeline_fields
      split: option.splits prod.splits)

lemma stop_events_eq:
  assumes "\<not> stopping s"
  shows "events (stop s) = events s @ stop_events s"
  using assms Decoder_stop_events [of "decoder s"]
  by (cases "Decoder_stop (decoder s)")
     (auto simp add: stop_def Let_def emit_def cleanup_pipeline_events cleanup_events_def
       stop_events_def split: option.splits)

lemma stop_events_no_callback: "filter is_Eos_callback (stop_events s) = []"
  by (simp add: stop_events_def cleanup_events_def)

subsection \<open>The invariant holds in every reachable state\<close>

lemma inv_init: "backend_inv MusicBackend_init"
  by (simp add: backend_inv_def MusicBackend_init_def Decoder_init_def)

lemma inv_stop: "\<not> stopping s \<Longrightarrow> backend_inv (stop s)"
  by (simp add: backend_inv_def stop_fields)

lemma inv_play: "backend_inv s \<Longrightarrow> backend_inv (play_file env fp st s)"
  by (auto simp add: backend_inv_def play_file_def Let_def emit_def stop_fields
      cleanup_pipeline_fields split: option.splits prod.splits dest!: Decoder_start_result)

lemma inv_pause: "backend_inv s \<Longrightarrow> backend_inv (pause s)"
  by (auto simp add: backend_inv_def pause_def Let_def emit_def split: option.splits)

lemma inv_bus: "backend_inv s \<Longrightarrow> backend_inv (snd (bus_callback_func msg s))"
  by (cases msg)
     (auto simp add: backend_inv_def bus_callback_func_def Let_def emit_def stop_fields
       split: option.splits)

lemma inv_set_eos: "backend_inv s \<Longrightarrow> backend_inv (set_eos_callback cb ud s)"
  by (simp add: backend_inv_def set_eos_callback_def)

lemma inv_metadata: "backend_inv s \<Longrightarrow> backend_inv (read_metadata menv path s)"
  by (auto simp add: backend_inv_def read_metadata_def Let_def emit_def
      split: option.splits prod.splits)

lemma inv_env: "backend_inv s \<Longrightarrow> backend_inv (pipeline_env c b d s)"
  by (auto simp add: backend_inv_def pipeline_env_def split: option.splits)

lemma inv_log: "backend_inv s \<Longrightarrow> backend_inv (emit ev s)"
  by (simp add: backend_inv_def emit_def)

lemma reachable_inv: "reachable s \<Longrightarrow> backend_inv s"
proof (induction rule: reachable.induct)
  case reach_init
  show ?case by (rule inv_init)
next
  case (reach_stop s)
  then have "\<not> stopping s" by (simp add: backend_inv_def)
  then show ?case by (rule inv_stop)
qed (simp_all add: inv_play inv_pause inv_bus inv_set_eos inv_metadata inv_env inv_log)

lemma example_state_fields:
  "pipeline (play_file example_play_env ''a.m4a'' 3 MusicBackend_init) =
     Some (example_pipeline\<lparr>gst_state := GST_STATE_PLAYING\<rparr>)"
  "is_playing (play_file example_play_env ''a.m4a'' 3 MusicBackend_init)"
  "\<not> is_paused (play_file example_play_env ''a.m4a'' 3 MusicBackend_init)"
  "\<not> stopping (play_file example_play_env ''a.m4a'' 3 MusicBackend_init)"
  "last_position (play_file example_play_env ''a.m4a'' 3 MusicBackend_init) = 3000000000"
  "running (decoder (play_file example_play_env ''a.m4a'' 3 MusicBackend_init))"
  "thread_id (decoder (play_file example_play_env ''a.m4a'' 3 MusicBackend_init)) = 7"
  "bus_watch_id (play_file example_play_env ''a.m4a'' 3 MusicBackend_init) = 5"
  "on_eos_callback (play_file example_play_env ''a.m4a'' 3 MusicBackend_init) = None"
  by (simp_all add: play_file_def MusicBackend_init_def Decoder_init_def Decoder_start_def
      emit_def Let_def GST_SECOND_def)

section \<open>The claims\<close>

subsection \<open>C1: a failing play\<close>

text \<open>
  C1 says that a \<^verbatim>\<open>play_file\<close> whose pipeline construction or whose
  \<^verbatim>\<open>Decoder::start\<close> fails tears the pipeline down and leaves the session stopped
  (\<open>is_playing\<close> and \<open>is_paused\<close> both false). When \<^verbatim>\<open>gst_parse_launch\<close> succeeds and
  \<^verbatim>\<open>pthread_create\<close> fails, the pipeline is torn down and no worker runs, but
  \<open>is_playing\<close> stays true: the branch lacks the \<^verbatim>\<open>is_playing = false\<close> that the
  branch of the failed pipeline construction has.
\<close>

theorem play_file_decoder_start_failure_stays_playing:
  "is_playing (play_file \<lparr>parse_launch = Some example_pipeline, add_watch = 5,
       thread_create = None\<rparr> ''a.m4a'' 3 MusicBackend_init) \<and>
   \<not> is_paused (play_file \<lparr>parse_launch = Some example_pipeline, add_watch = 5,
       thread_create = None\<rparr> ''a.m4a'' 3 MusicBackend_init) \<and>
   pipeline (play_file \<lparr>parse_launch = Some example_pipeline, add_watch = 5,
       thread_create = None\<rparr> ''a.m4a'' 3 MusicBackend_init) = None \<and>
   \<not> running (decoder (play_file \<lparr>parse_launch = Some example_pipeline, add_watch = 5,
       thread_create = None\<rparr> ''a.m4a'' 3 MusicBackend_init)) \<and>
   \<not> is_playing (play_file \<lparr>parse_launch = None, add_watch = 5,
       thread_create = Some 7\<rparr> ''a.m4a'' 3 MusicBackend_init)"
  by (simp add: play_file_def MusicBackend_init_def Decoder_init_def Decoder_start_def
      emit_def cleanup_pipeline_def Let_def)

subsection \<open>C2: stop deactivates the pipeline before it joins the worker\<close>

text \<open>
  C2: in every execution of \<^verbatim>\<open>stop\<close> that the stopping guard does not reject, the
  pipeline is set to \<^verbatim>\<open>GST_STATE_NULL\<close> strictly before \<^verbatim>\<open>Decoder::stop\<close> joins the
  worker thread. In a reachable state the guard never rejects. The events \<open>ev\<close> that
  \<^verbatim>\<open>stop\<close> issues begin with the deactivation whenever there is a pipeline; when a
  worker is to be joined, the deactivation comes first and the join second; and every
  join among them has the deactivation before it.
\<close>

theorem stop_deactivates_before_join:
  assumes "reachable s"
  shows "\<not> stopping s \<and>
         (\<exists>ev. events (stop s) = events s @ ev \<and>
           (pipeline s \<noteq> None \<longrightarrow>
              (\<exists>rest. ev = Gst_element_set_state GST_STATE_NULL # rest)) \<and>
           (running (decoder s) \<and> thread_id (decoder s) \<noteq> 0 \<longrightarrow>
              (\<exists>rest. ev = Gst_element_set_state GST_STATE_NULL #
                            Pthread_join (thread_id (decoder s)) # rest)) \<and>
           (\<forall>pre tid post. ev = pre @ Pthread_join tid # post \<longrightarrow>
              Gst_element_set_state GST_STATE_NULL \<in> set pre))"
proof -
  from assms have inv: "backend_inv s" by (rule reachable_inv)
  then have ns: "\<not> stopping s" by (simp add: backend_inv_def)
  have ev: "events (stop s) = events s @ stop_events s"
    using ns by (rule stop_events_eq)
  have first: "pipeline s \<noteq> None \<longrightarrow>
      (\<exists>rest. stop_events s = Gst_element_set_state GST_STATE_NULL # rest)"
    by (simp add: stop_events_def)
  have second: "running (decoder s) \<and> thread_id (decoder s) \<noteq> 0 \<longrightarrow>
      (\<exists>rest. stop_events s = Gst_element_set_state GST_STATE_NULL #
                            Pthread_join (thread_id (decoder s)) # rest)"
    using inv by (auto simp add: stop_events_def backend_inv_def)
  have join: "Gst_element_set_state GST_STATE_NULL \<in> set pre"
    if "stop_events s = pre @ Pthread_join tid # post" for pre tid post
  proof (cases "running (decoder s) \<and> thread_id (decoder s) \<noteq> 0")
    case True
    with inv have "pipeline s \<noteq> None" by (simp add: backend_inv_def)
    with True that have eq: "Gst_element_set_state GST_STATE_NULL #
        Pthread_join (thread_id (decoder s)) # cleanup_events s = pre @ Pthread_join tid # post"
      by (simp add: stop_events_def)
    show ?thesis
    proof (cases pre)
      case Nil
      with eq show ?thesis by simp
    next
      case (Cons a pre')
      with eq show ?thesis by simp
    qed
  next
    case False
    then have "Pthread_join tid \<notin> set (stop_events s)"
      by (auto simp add: stop_events_def cleanup_events_def)
    with that show ?thesis by simp
  qed
  from ns ev first second join show ?thesis by blast
qed

theorem stop_deactivates_before_join_witness:
  "reachable (play_file example_play_env ''a.m4a'' 3 MusicBackend_init) \<and>
   pipeline (play_file example_play_env ''a.m4a'' 3 MusicBackend_init) \<noteq> None \<and>
   running (decoder (play_file example_play_env ''a.m4a'' 3 MusicBackend_init)) \<and>
   thread_id (decoder (play_file example_play_env ''a.m4a'' 3 MusicBackend_init)) = 7 \<and>
   (\<exists>rest. events (stop (play_file example_play_env ''a.m4a'' 3 MusicBackend_init)) =
      events (play_file example_play_env ''a.m4a'' 3 MusicBackend_init) @
        Gst_element_set_state GST_STATE_NULL # Pthread_join 7 # rest)"
proof -
  have r: "reachable (play_file example_play_env ''a.m4a'' 3 MusicBackend_init)"
    by (rule reach_play [OF reach_init])
  from stop_deactivates_before_join [OF r] r show ?thesis
    by (auto simp add: example_state_fields)
qed

subsection \<open>C4: pause, then resume\<close>

text \<open>
  C4: from a playing session, \<^verbatim>\<open>pause()\<close> followed by \<^verbatim>\<open>pause()\<close> again (the resume),
  with no clock time elapsed in between (the pipeline reports the same clock reading and
  base time throughout), leaves the value of \<^verbatim>\<open>get_position\<close> unchanged. The resume
  subtracts the running time from \<open>last_position\<close>, so that \<open>last_position\<close> plus the
  running time is again the position held while paused.
\<close>

theorem pause_resume_keeps_position:
  assumes "is_playing s" and "\<not> is_paused s"
  shows "get_position (pause (pause s)) = get_position s \<and>
         last_position (pause (pause s)) = last_position s \<and>
         (pipeline s \<noteq> None \<longrightarrow>
            is_paused (pause s) \<and> get_position (pause s) = get_position s \<and>
            last_position (pause s) = get_position s \<and>
            \<not> is_paused (pause (pause s)) \<and> is_playing (pause (pause s))) \<and>
         (\<forall>p current_time.
            pipeline s = Some p \<and> clock p = Some current_time \<and>
            GST_CLOCK_TIME_IS_VALID (base_time p) \<and> base_time p < current_time \<longrightarrow>
            last_position (pause (pause s)) + (current_time - base_time p) =
              last_position (pause s))"
  using assms
  by (auto simp add: pause_def get_position_def emit_def Let_def split: option.splits)

theorem pause_resume_keeps_position_witness:
  "is_playing (play_file example_play_env ''a.m4a'' 3 MusicBackend_init) \<and>
   \<not> is_paused (play_file example_play_env ''a.m4a'' 3 MusicBackend_init) \<and>
   pipeline (play_file example_play_env ''a.m4a'' 3 MusicBackend_init) \<noteq> None \<and>
   get_position (play_file example_play_env ''a.m4a'' 3 MusicBackend_init) = 3000000040 \<and>
   is_paused (pause (play_file example_play_env ''a.m4a'' 3 MusicBackend_init)) \<and>
   get_position (pause (play_file example_play_env ''a.m4a'' 3 MusicBackend_init)) =
     3000000040 \<and>
   get_position (pause (pause (play_file example_play_env ''a.m4a'' 3 MusicBackend_init))) =
     3000000040"
proof -
  have pos: "get_position (play_file example_play_env ''a.m4a'' 3 MusicBackend_init) =
      3000000040"
    by (simp add: get_position_def example_state_fields GST_CLOCK_TIME_IS_VALID_def
        GST_CLOCK_TIME_NONE_def)
  from pause_resume_keeps_position
         [of "play_file example_play_env ''a.m4a'' 3 MusicBackend_init"] pos
  show ?thesis
    by (simp add: example_state_fields)
qed

subsection \<open>C5 and C9: the position query\<close>

text \<open>
  C5 says that \<^verbatim>\<open>get_position\<close> returns \<open>last_position\<close> when paused, returns
  \<open>last_position + (clock now - base time)\<close> when playing with a pipeline whose clock
  and base time are valid, and \<open>last_position\<close> otherwise. As stated this fails when the
  clock reading is behind the base time: the code then returns \<open>last_position\<close>, not
  \<open>last_position\<close> plus the (negative) difference.
\<close>

theorem get_position_clock_behind_base_counterexample:
  "is_playing (play_file \<lparr>parse_launch = Some \<lparr>gst_state = GST_STATE_NULL, clock = Some 5,
       base_time = 10, query_duration = None\<rparr>, add_watch = 5, thread_create = Some 7\<rparr>
       ''a.m4a'' 3 MusicBackend_init) \<and>
   \<not> is_paused (play_file \<lparr>parse_launch = Some \<lparr>gst_state = GST_STATE_NULL, clock = Some 5,
       base_time = 10, query_duration = None\<rparr>, add_watch = 5, thread_create = Some 7\<rparr>
       ''a.m4a'' 3 MusicBackend_init) \<and>
   pipeline (play_file \<lparr>parse_launch = Some \<lparr>gst_state = GST_STATE_NULL, clock = Some 5,
       base_time = 10, query_duration = None\<rparr>, add_watch = 5, thread_create = Some 7\<rparr>
       ''a.m4a'' 3 MusicBackend_init) =
     Some \<lparr>gst_state = GST_STATE_PLAYING, clock = Some 5, base_time = 10,
       query_duration = None\<rparr> \<and>
   GST_CLOCK_TIME_IS_VALID 10 \<and>
   last_position (play_file \<lparr>parse_launch = Some \<lparr>gst_state = GST_STATE_NULL, clock = Some 5,
       base_time = 10, query_duration = None\<rparr>, add_watch = 5, thread_create = Some 7\<rparr>
       ''a.m4a'' 3 MusicBackend_init) = 3000000000 \<and>
   get_position (play_file \<lparr>parse_launch = Some \<lparr>gst_state = GST_STATE_NULL, clock = Some 5,
       base_time = 10, query_duration = None\<rparr>, add_watch = 5, thread_create = Some 7\<rparr>
       ''a.m4a'' 3 MusicBackend_init) = 3000000000 \<and>
   get_position (play_file \<lparr>parse_launch = Some \<lparr>gst_state = GST_STATE_NULL, clock = Some 5,
       base_time = 10, query_duration = None\<rparr>, add_watch = 5, thread_create = Some 7\<rparr>
       ''a.m4a'' 3 MusicBackend_init) \<noteq> 3000000000 + (5 - 10)"
  by (simp add: get_position_def play_file_def MusicBackend_init_def Decoder_init_def
      Decoder_start_def emit_def Let_def GST_SECOND_def GST_CLOCK_TIME_IS_VALID_def
      GST_CLOCK_TIME_NONE_def)

text \<open>
  C5 as amended: \<^verbatim>\<open>get_position\<close> returns \<open>last_position\<close> when paused; when not
  paused and playing with a pipeline whose clock is available, whose base time is valid
  and whose clock reading is strictly greater than the base time, it returns
  \<open>last_position + (clock now - base time)\<close>; in all other cases it returns
  \<open>last_position\<close>.
\<close>

theorem get_position_cases:
  "(is_paused s \<longrightarrow> get_position s = last_position s) \<and>
   (\<forall>p current_time.
      \<not> is_paused s \<and> is_playing s \<and> pipeline s = Some p \<and>
      clock p = Some current_time \<and>
      GST_CLOCK_TIME_IS_VALID (base_time p) \<and> base_time p < current_time \<longrightarrow>
      get_position s = last_position s + (current_time - base_time p)) \<and>
   (\<not> (\<exists>p current_time.
      \<not> is_paused s \<and> is_playing s \<and> pipeline s = Some p \<and>
      clock p = Some current_time \<and>
      GST_CLOCK_TIME_IS_VALID (base_time p) \<and> base_time p < current_time) \<longrightarrow>
      get_position s = last_position s)"
  by (auto simp add: get_position_def split: option.splits)

theorem get_position_cases_witness:
  "\<not> is_paused (play_file example_play_env ''a.m4a'' 3 MusicBackend_init) \<and>
   is_playing (play_file example_play_env ''a.m4a'' 3 MusicBackend_init) \<and>
   pipeline (play_file example_play_env ''a.m4a'' 3 MusicBackend_init) =
     Some (example_pipeline\<lparr>gst_state := GST_STATE_PLAYING\<rparr>) \<and>
   GST_CLOCK_TIME_IS_VALID 10 \<and> (10 :: GstClockTime) < 50 \<and>
   get_position (play_file example_play_env ''a.m4a'' 3 MusicBackend_init) =
     3000000000 + (50 - 10) \<and>
   is_paused (pause (play_file example_play_env ''a.m4a'' 3 MusicBackend_init)) \<and>
   get_position (pause (play_file example_play_env ''a.m4a'' 3 MusicBackend_init)) =
     last_position (pause (play_file example_play_env ''a.m4a'' 3 MusicBackend_init)) \<and>
   \<not> is_playing MusicBackend_init \<and>
   get_position MusicBackend_init = last_position MusicBackend_init"
proof -
  have valid: "GST_CLOCK_TIME_IS_VALID 10"
    by (simp add: GST_CLOCK_TIME_IS_VALID_def GST_CLOCK_TIME_NONE_def)
  have paused: "is_paused (pause (play_file example_play_env ''a.m4a'' 3 MusicBackend_init))"
    by (simp add: pause_def example_state_fields emit_def)
  have init: "\<not> is_playing MusicBackend_init" "\<not> is_paused MusicBackend_init"
    by (simp_all add: MusicBackend_init_def)
  from get_position_cases [of "play_file example_play_env ''a.m4a'' 3 MusicBackend_init"]
    get_position_cases [of "pause (play_file example_play_env ''a.m4a'' 3 MusicBackend_init)"]
    get_position_cases [of MusicBackend_init] valid paused init
  show ?thesis
    by (simp add: example_state_fields)
qed

text \<open>
  C9: while playing (and not paused) with a pipeline whose clock is obtainable and whose
  base time is valid, \<^verbatim>\<open>get_position\<close> adds the live delta only when the clock reading
  is strictly greater than the base time; when it is less than or equal to the base time,
  \<open>last_position\<close> is returned unchanged.
\<close>

theorem get_position_guarded_delta:
  assumes "\<not> is_paused s" and "is_playing s" and "pipeline s = Some p"
    and "clock p = Some current_time" and "GST_CLOCK_TIME_IS_VALID (base_time p)"
  shows "(base_time p < current_time \<longrightarrow>
            get_position s = last_position s + (current_time - base_time p)) \<and>
         (current_time \<le> base_time p \<longrightarrow> get_position s = last_position s)"
  using assms by (auto simp add: get_position_def)

theorem get_position_guarded_delta_witness:
  "\<not> is_paused (play_file example_play_env ''a.m4a'' 3 MusicBackend_init) \<and>
   is_playing (play_file example_play_env ''a.m4a'' 3 MusicBackend_init) \<and>
   pipeline (play_file example_play_env ''a.m4a'' 3 MusicBackend_init) =
     Some (example_pipeline\<lparr>gst_state := GST_STATE_PLAYING\<rparr>) \<and>
   GST_CLOCK_TIME_IS_VALID 10 \<and> (10 :: GstClockTime) < 50 \<and>
   get_position (play_file example_play_env ''a.m4a'' 3 MusicBackend_init) = 3000000040 \<and>
   (50 :: GstClockTime) \<le> 50 \<and>
   get_position (pipeline_env (Some 50) 50 None
      (play_file example_play_env ''a.m4a'' 3 MusicBackend_init)) = 3000000000"
proof -
  have valid: "GST_CLOCK_TIME_IS_VALID 10" "GST_CLOCK_TIME_IS_VALID 50"
    by (simp_all add: GST_CLOCK_TIME_IS_VALID_def GST_CLOCK_TIME_NONE_def)
  have later: "pipeline (pipeline_env (Some 50) 50 None
      (play_file example_play_env ''a.m4a'' 3 MusicBackend_init)) =
      Some \<lparr>gst_state = GST_STATE_PLAYING, clock = Some 50, base_time = 50,
        query_duration = None\<rparr>"
    "\<not> is_paused (pipeline_env (Some 50) 50 None
      (play_file example_play_env ''a.m4a'' 3 MusicBackend_init))"
    "is_playing (pipeline_env (Some 50) 50 None
      (play_file example_play_env ''a.m4a'' 3 MusicBackend_init))"
    "last_position (pipeline_env (Some 50) 50 None
      (play_file example_play_env ''a.m4a'' 3 MusicBackend_init)) = 3000000000"
    by (simp_all add: pipeline_env_def example_state_fields)
  from get_position_guarded_delta
         [of "play_file example_play_env ''a.m4a'' 3 MusicBackend_init"
             "example_pipeline\<lparr>gst_state := GST_STATE_PLAYING\<rparr>" 50]
       get_position_guarded_delta
         [OF later(2) later(3) later(1), of 50]
       valid later
  show ?thesis
    by (simp add: example_state_fields)
qed

subsection \<open>C10: what a failing play leaves behind\<close>

text \<open>
  C10: \<^verbatim>\<open>play_file\<close> assigns the exposed file path and sets \<open>last_position\<close> to the
  start time (in clock ticks, \<^verbatim>\<open>start_time * GST_SECOND\<close>) before it constructs the
  pipeline or starts the Decoder; so after every call that gets past the stopping guard
  and then fails (pipeline construction or Decoder start), both hold the new values,
  and no pipeline is left.
\<close>

theorem play_file_failure_keeps_path_and_position:
  assumes "\<not> stopping s"
    and "parse_launch env = None \<or> thread_create env = None"
  shows "current_filepath_str (play_file env fp st s) = fp \<and>
         get_current_filepath (play_file env fp st s) = fp \<and>
         last_position (play_file env fp st s) = scast st * GST_SECOND \<and>
         pipeline (play_file env fp st s) = None"
  using assms
  by (auto simp add: get_current_filepath_def play_file_def Let_def emit_def
      cleanup_pipeline_fields split: option.splits prod.splits dest!: Decoder_start_result)

theorem play_file_failure_keeps_path_and_position_witness:
  "\<not> stopping (play_file example_play_env ''a.m4a'' 3 MusicBackend_init) \<and>
   thread_create \<lparr>parse_launch = Some example_pipeline, add_watch = 6,
     thread_create = None\<rparr> = None \<and>
   get_current_filepath (play_file \<lparr>parse_launch = Some example_pipeline, add_watch = 6,
     thread_create = None\<rparr> ''b.m4a'' 8
       (play_file example_play_env ''a.m4a'' 3 MusicBackend_init)) = ''b.m4a'' \<and>
   last_position (play_file \<lparr>parse_launch = Some example_pipeline, add_watch = 6,
     thread_create = None\<rparr> ''b.m4a'' 8
       (play_file example_play_env ''a.m4a'' 3 MusicBackend_init)) = 8000000000 \<and>
   get_current_filepath (play_file example_play_env ''a.m4a'' 3 MusicBackend_init) =
     ''a.m4a'' \<and>
   last_position (play_file example_play_env ''a.m4a'' 3 MusicBackend_init) = 3000000000"
proof -
  have path: "get_current_filepath (play_file example_play_env ''a.m4a'' 3 MusicBackend_init) =
      ''a.m4a''"
    by (simp add: get_current_filepath_def play_file_def MusicBackend_init_def Decoder_init_def
        Decoder_start_def emit_def Let_def)
  from play_file_failure_keeps_path_and_position
         [of "play_file example_play_env ''a.m4a'' 3 MusicBackend_init"
             "\<lparr>parse_launch = Some example_pipeline, add_watch = 6, thread_create = None\<rparr>"
             "''b.m4a''" 8] path
  show ?thesis
    by (simp add: example_state_fields GST_SECOND_def)
qed

subsection \<open>C7: end of stream\<close>

text \<open>
  C7: on an end-of-stream message the controller calls \<^verbatim>\<open>stop()\<close> and then invokes
  the registered end-of-stream callback exactly once, and the session is stopped. In
  every reachable state with a callback registered, the state after the handler is the
  state \<^verbatim>\<open>stop\<close> produces followed by the one callback invocation; the session is
  neither playing nor paused, has no pipeline and no running worker; and among the events
  the handler issued there is exactly one callback invocation, with the registered
  callback and user data.
\<close>

theorem eos_stops_then_calls_back_once:
  assumes "reachable s" and "on_eos_callback s = Some cb"
  shows "snd (bus_callback_func GST_MESSAGE_EOS s) =
           emit [Eos_callback cb (eos_user_data s)]
             (stop (emit [G_print ''Backend: EOS reached.''] s)) \<and>
         \<not> stopping (emit [G_print ''Backend: EOS reached.''] s) \<and>
         \<not> is_playing (snd (bus_callback_func GST_MESSAGE_EOS s)) \<and>
         \<not> is_paused (snd (bus_callback_func GST_MESSAGE_EOS s)) \<and>
         pipeline (snd (bus_callback_func GST_MESSAGE_EOS s)) = None \<and>
         \<not> running (decoder (snd (bus_callback_func GST_MESSAGE_EOS s))) \<and>
         take (length (events s)) (events (snd (bus_callback_func GST_MESSAGE_EOS s))) =
           events s \<and>
         filter is_Eos_callback
           (drop (length (events s)) (events (snd (bus_callback_func GST_MESSAGE_EOS s)))) =
           [Eos_callback cb (eos_user_data s)] \<and>
         last (events (snd (bus_callback_func GST_MESSAGE_EOS s))) =
           Eos_callback cb (eos_user_data s)"
proof -
  let ?s0 = "emit [G_print ''Backend: EOS reached.''] s"
  from assms(1) have "backend_inv s" by (rule reachable_inv)
  then have ns: "\<not> stopping ?s0" by (simp add: backend_inv_def emit_def)
  have cb: "on_eos_callback (stop ?s0) = Some cb"
    using ns assms(2) by (simp add: stop_fields emit_def)
  have ud: "eos_user_data (stop ?s0) = eos_user_data s"
    using ns by (simp add: stop_fields emit_def)
  have res: "snd (bus_callback_func GST_MESSAGE_EOS s) =
      emit [Eos_callback cb (eos_user_data s)] (stop ?s0)"
    using cb ud by (simp add: bus_callback_func_def Let_def)
  have ev: "events (stop ?s0) = events s @ G_print ''Backend: EOS reached.'' # stop_events ?s0"
    using stop_events_eq [OF ns] by (simp add: emit_def)
  show ?thesis
    using ns ev stop_events_no_callback [of ?s0]
    by (simp add: res emit_def stop_fields)
qed

theorem eos_stops_then_calls_back_once_witness:
  "reachable (play_file example_play_env ''a.m4a'' 3
      (set_eos_callback (Some 9) 42 MusicBackend_init)) \<and>
   on_eos_callback (play_file example_play_env ''a.m4a'' 3
      (set_eos_callback (Some 9) 42 MusicBackend_init)) = Some 9 \<and>
   is_playing (play_file example_play_env ''a.m4a'' 3
      (set_eos_callback (Some 9) 42 MusicBackend_init)) \<and>
   \<not> is_playing (snd (bus_callback_func GST_MESSAGE_EOS
      (play_file example_play_env ''a.m4a'' 3
         (set_eos_callback (Some 9) 42 MusicBackend_init)))) \<and>
   filter is_Eos_callback
     (drop (length (events (play_file example_play_env ''a.m4a'' 3
                      (set_eos_callback (Some 9) 42 MusicBackend_init))))
        (events (snd (bus_callback_func GST_MESSAGE_EOS
           (play_file example_play_env ''a.m4a'' 3
              (set_eos_callback (Some 9) 42 MusicBackend_init)))))) =
     [Eos_callback 9 42]"
proof -
  have r: "reachable (play_file example_play_env ''a.m4a'' 3
      (set_eos_callback (Some 9) 42 MusicBackend_init))"
    by (rule reach_play [OF reach_set_eos [OF reach_init]])
  have f: "on_eos_callback (play_file example_play_env ''a.m4a'' 3
      (set_eos_callback (Some 9) 42 MusicBackend_init)) = Some 9"
    "eos_user_data (play_file example_play_env ''a.m4a'' 3
      (set_eos_callback (Some 9) 42 MusicBackend_init)) = 42"
    "is_playing (play_file example_play_env ''a.m4a'' 3
      (set_eos_callback (Some 9) 42 MusicBackend_init))"
    by (simp_all add: play_file_def set_eos_callback_def MusicBackend_init_def Decoder_init_def
        Decoder_start_def emit_def Let_def)
  note w = eos_stops_then_calls_back_once [OF r f(1), unfolded f(2)]
  from w r f(1) f(3) show ?thesis by blast
qed

subsection \<open>C6: a failing write to the channel\<close>

text \<open>
  C6: in the decode loop, a write that fails because the reader has disconnected
  (\<^verbatim>\<open>EPIPE\<close>) ends the loop silently, with no error logged; any other write failure is
  logged (\<^verbatim>\<open>perror\<close>) and also ends the loop. The loop is run over the frames
  \<open>pre @ f # rest\<close>: it is not stopped while it works through \<open>pre\<close>, whose frames are
  skipped, empty or written, and the write of \<open>f\<close> fails with \<^verbatim>\<open>errno\<close> \<open>e\<close>. Then the
  events of the loop are those of working through \<open>pre\<close> and reading the next frame
  (which is what the loop issues on \<open>pre\<close> alone), the decoding and the write of \<open>f\<close>, and
  after them nothing when \<open>e\<close> is \<^verbatim>\<open>EPIPE\<close> and the one \<^verbatim>\<open>perror\<close> otherwise: no
  frame of \<open>rest\<close> is read.
\<close>

theorem write_failure_ends_loop:
  assumes "\<forall>i \<le> length pre. \<not> stop_at (k + i)"
    and "\<forall>g \<in> set pre. frame_passes g"
    and "frame_error f = 0" and "0 < frame_samples f"
    and "frame_write f = Write_failed e"
  shows "decode_frames stop_at k (pre @ f # rest) =
           decode_frames stop_at k pre @
           [NeAACDecDecode, Write_pipe (unat (frame_samples f * 2))] @
           (if e = EPIPE then [] else [Perror ''Decoder: write error''])"
  using assms
proof (induction pre arbitrary: k)
  case Nil
  then show ?case by simp
next
  case (Cons g pre)
  have "\<forall>i \<le> length pre. \<not> stop_at (Suc k + i)"
  proof (intro allI impI)
    fix i assume "i \<le> length pre"
    then have "Suc i \<le> length (g # pre)" by simp
    with Cons.prems(1) have "\<not> stop_at (k + Suc i)" by blast
    then show "\<not> stop_at (Suc k + i)" by simp
  qed
  moreover have "\<forall>g \<in> set pre. frame_passes g" using Cons.prems(2) by simp
  ultimately have ih: "decode_frames stop_at (Suc k) (pre @ f # rest) =
      decode_frames stop_at (Suc k) pre @
      [NeAACDecDecode, Write_pipe (unat (frame_samples f * 2))] @
      (if e = EPIPE then [] else [Perror ''Decoder: write error''])"
    using Cons.IH [of "Suc k"] Cons.prems(3-5) by blast
  have nostop: "\<not> stop_at k" using Cons.prems(1) by (metis add.right_neutral le0)
  have pass: "frame_passes g" using Cons.prems(2) by simp
  show ?case
  proof (cases "0 < frame_error g")
    case True
    then show ?thesis
      using nostop ih by simp
  next
    case False
    show ?thesis
    proof (cases "0 < frame_samples g")
      case True
      with pass False obtain n where "frame_write g = Written n"
        by (auto simp add: word_greater_zero_iff split: write_result.splits)
      then show ?thesis
        using nostop ih False True by simp
    next
      case nosamples: False
      then show ?thesis
        using nostop ih False by simp
    qed
  qed
qed

theorem write_failure_ends_loop_witness:
  "frame_passes \<lparr>frame_error = 0, frame_samples = 2048, frame_write = Written 4096\<rparr> \<and>
   (0 :: ulong) < 2048 \<and>
   decode_frames (\<lambda>k. False) 0
     [\<lparr>frame_error = 0, frame_samples = 2048, frame_write = Written 4096\<rparr>,
      \<lparr>frame_error = 0, frame_samples = 2048, frame_write = Write_failed EPIPE\<rparr>,
      \<lparr>frame_error = 0, frame_samples = 2048, frame_write = Written 4096\<rparr>] =
     [Mp4read_frame, NeAACDecDecode, Write_pipe 4096,
      Mp4read_frame, NeAACDecDecode, Write_pipe 4096] \<and>
   decode_frames (\<lambda>k. False) 0
     [\<lparr>frame_error = 0, frame_samples = 2048, frame_write = Written 4096\<rparr>,
      \<lparr>frame_error = 0, frame_samples = 2048, frame_write = Write_failed 5\<rparr>,
      \<lparr>frame_error = 0, frame_samples = 2048, frame_write = Written 4096\<rparr>] =
     [Mp4read_frame, NeAACDecDecode, Write_pipe 4096,
      Mp4read_frame, NeAACDecDecode, Write_pipe 4096, Perror ''Decoder: write error'']"
proof -
  have a: "\<forall>i \<le> length [\<lparr>frame_error = 0, frame_samples = 2048,
      frame_write = Written 4096\<rparr>]. \<not> (\<lambda>k. False) (0 + i)"
    by simp
  have b: "\<forall>g \<in> set [\<lparr>frame_error = 0, frame_samples = 2048,
      frame_write = Written 4096\<rparr>]. frame_passes g"
    by simp
  have c: "frame_error \<lparr>frame_error = 0, frame_samples = 2048,
      frame_write = Write_failed e\<rparr> = 0"
    "0 < frame_samples \<lparr>frame_error = 0, frame_samples = 2048,
      frame_write = Write_failed e\<rparr>"
    "frame_write \<lparr>frame_error = 0, frame_samples = 2048,
      frame_write = Write_failed e\<rparr> = Write_failed e" for e
    by simp_all
  from write_failure_ends_loop
         [where rest = "[\<lparr>frame_error = 0, frame_samples = 2048, frame_write = Written 4096\<rparr>]",
          OF a b c [of EPIPE]]
       write_failure_ends_loop
         [where rest = "[\<lparr>frame_error = 0, frame_samples = 2048, frame_write = Written 4096\<rparr>]",
          OF a b c [of 5]]
  show ?thesis
    by (simp add: EPIPE_def)
qed

subsection \<open>C8: the cached duration\<close>

lemma sint_small:
  fixes x :: "64 word"
  assumes "uint x < 2 ^ 63"
  shows "sint x = uint x"
proof -
  have "sint x = signed_take_bit 63 (uint x)" by (simp add: sint_uint)
  also have "\<dots> = uint x"
    using assms by (intro signed_take_bit_int_eq_self) (simp_all add: order_trans [of _ 0])
  finally show ?thesis .
qed

lemma uint_ucast_32_64:
  fixes a :: "32 word"
  shows "uint (ucast a :: 64 word) = uint a"
  by (simp add: uint_up_ucast is_up)

lemma uint_32_bound:
  fixes a :: "32 word"
  shows "uint a < 4294967296"
  using uint_bounded [of a] by simp

lemma uint_ucast_mul:
  fixes a :: "32 word"
  shows "uint ((ucast a :: 64 word) * 1000000000) = uint a * 1000000000"
proof -
  have "uint a * 1000000000 < 2 ^ 64" using uint_32_bound [of a] by simp
  moreover have "0 \<le> uint a * 1000000000" by simp
  ultimately show ?thesis
    by (simp add: uint_word_ariths uint_ucast_32_64)
qed

lemma sdiv_nonneg: "0 \<le> (a::int) \<Longrightarrow> 0 \<le> b \<Longrightarrow> a sdiv b = a div b"
  by (cases "a = 0"; cases "b = 0") (simp_all add: signed_divide_int_def sgn_if)

lemma gint64_div_duration:
  fixes samples rate :: "32 word"
  shows "gint64_div (ucast samples * GST_SECOND) (ucast rate) =
           word_of_int (uint samples * 1000000000 div uint rate)"
proof -
  have a: "sint ((ucast samples :: 64 word) * 1000000000) = uint samples * 1000000000"
    using uint_32_bound [of samples] by (simp add: sint_small uint_ucast_mul)
  have b: "sint (ucast rate :: 64 word) = uint rate"
    using uint_32_bound [of rate] by (simp add: sint_small uint_ucast_32_64)
  show ?thesis
    by (simp add: gint64_div_def GST_SECOND_def a b sdiv_nonneg)
qed

lemma duration_no_wrap:
  fixes samples rate :: "32 word"
  shows "sint (word_of_int (uint samples * 1000000000 div uint rate) :: 64 word) =
           uint samples * 1000000000 div uint rate"
proof -
  let ?v = "uint samples * 1000000000 div uint rate"
  have nat: "?v = int (unat samples * 1000000000 div unat rate)"
    by (simp add: zdiv_int)
  have "unat samples * 1000000000 div unat rate \<le> unat samples * 1000000000"
    by (rule div_le_dividend)
  then have le: "?v \<le> uint samples * 1000000000"
    unfolding nat by (simp only: uint_nat of_nat_le_iff of_nat_mult of_nat_numeral)
  have nonneg: "0 \<le> ?v" unfolding nat by simp
  have bound: "?v < 2 ^ 63" using le uint_32_bound [of samples] by simp
  have "uint (word_of_int ?v :: 64 word) = ?v"
    using nonneg bound by (simp add: uint_word_of_int take_bit_int_eq_self)
  then show ?thesis using bound by (simp add: sint_small)
qed

lemma example_duration: "gint64_div (1024000 * GST_SECOND) 44100 = 23219954648"
  using gint64_div_duration [of 1024000 44100] by simp

text \<open>
  On a read that opens the file, the duration that is cached is the container's
  sample count times \<^verbatim>\<open>GST_SECOND\<close> divided by the container's sample rate (an integer
  division that does not overflow 64 bits) when both are positive, and zero otherwise.
\<close>

lemma read_metadata_duration:
  assumes "md_mp4read_open env = Some cfg"
  shows "sint (total_duration (read_metadata env (Some path) s)) =
           (if 0 < mp4_samplerate cfg \<and> 0 < mp4_samples cfg
            then uint (mp4_samples cfg) * 1000000000 div uint (mp4_samplerate cfg)
            else 0)"
  using assms
  by (simp add: read_metadata_def Let_def emit_def gint64_div_duration duration_no_wrap
      split: option.splits prod.splits)

text \<open>
  C8 says that after every metadata read the cached duration is
  \<open>totalSampleCount * timeUnit / sampleRate\<close> when the sample count and the sample rate
  are known and positive, and zero otherwise. The file \<^verbatim>\<open>a.m4a\<close> (1024000 samples at
  44100 Hz, titled) is read, and then \<^verbatim>\<open>b.m4a\<close>, which \<^verbatim>\<open>mp4read_open\<close> cannot open. The
  second read resets the tags of the first file, but the duration it leaves cached, and
  \<^verbatim>\<open>get_duration\<close> returns, is still that of \<^verbatim>\<open>a.m4a\<close>: \<open>total_duration\<close> is not among the
  fields reset before the open, and the branch of the failed open does not set it to
  zero, as the branch of a successful open does when sample count or sample rate is
  unknown.
\<close>

theorem read_metadata_open_failure_keeps_stale_duration:
  "meta_title
     (read_metadata
        \<lparr>md_mp4read_open = Some (example_config\<lparr>mp4_meta_title := Some ''Song''\<rparr>),
         md_NeAACDecOpen = True, md_NeAACDecInit2 = Some (44100, 2)\<rparr>
        (Some ''a.m4a'') MusicBackend_init) = ''Song'' \<and>
   total_duration
     (read_metadata
        \<lparr>md_mp4read_open = Some (example_config\<lparr>mp4_meta_title := Some ''Song''\<rparr>),
         md_NeAACDecOpen = True, md_NeAACDecInit2 = Some (44100, 2)\<rparr>
        (Some ''a.m4a'') MusicBackend_init) = 23219954648 \<and>
   meta_title
     (read_metadata
        \<lparr>md_mp4read_open = None, md_NeAACDecOpen = True, md_NeAACDecInit2 = None\<rparr>
        (Some ''b.m4a'')
        (read_metadata
           \<lparr>md_mp4read_open = Some (example_config\<lparr>mp4_meta_title := Some ''Song''\<rparr>),
            md_NeAACDecOpen = True, md_NeAACDecInit2 = Some (44100, 2)\<rparr>
           (Some ''a.m4a'') MusicBackend_init)) = [] \<and>
   total_duration
     (read_metadata
        \<lparr>md_mp4read_open = None, md_NeAACDecOpen = True, md_NeAACDecInit2 = None\<rparr>
        (Some ''b.m4a'')
        (read_metadata
           \<lparr>md_mp4read_open = Some (example_config\<lparr>mp4_meta_title := Some ''Song''\<rparr>),
            md_NeAACDecOpen = True, md_NeAACDecInit2 = Some (44100, 2)\<rparr>
           (Some ''a.m4a'') MusicBackend_init)) = 23219954648 \<and>
   get_duration
     (read_metadata
        \<lparr>md_mp4read_open = None, md_NeAACDecOpen = True, md_NeAACDecInit2 = None\<rparr>
        (Some ''b.m4a'')
        (read_metadata
           \<lparr>md_mp4read_open = Some (example_config\<lparr>mp4_meta_title := Some ''Song''\<rparr>),
            md_NeAACDecOpen = True, md_NeAACDecInit2 = Some (44100, 2)\<rparr>
           (Some ''a.m4a'') MusicBackend_init)) = 23219954648 \<and>
   total_duration
     (read_metadata
        \<lparr>md_mp4read_open = Some (example_config\<lparr>mp4_samplerate := 0\<rparr>),
         md_NeAACDecOpen = True, md_NeAACDecInit2 = Some (44100, 2)\<rparr>
        (Some ''b.m4a'')
        (read_metadata
           \<lparr>md_mp4read_open = Some (example_config\<lparr>mp4_meta_title := Some ''Song''\<rparr>),
            md_NeAACDecOpen = True, md_NeAACDecInit2 = Some (44100, 2)\<rparr>
           (Some ''a.m4a'') MusicBackend_init)) = 0"
  by (simp add: read_metadata_def get_duration_def Let_def emit_def example_duration
      word_sless_alt)

section \<open>Properties of the binary64 model\<close>

text \<open>
  Integers below \<open>2 ^ 53\<close> are doubles, and the double nearest to the quotient of two
  such integers lies in the same unit interval as the quotient: truncating it gives the
  integer quotient.
\<close>

lemma bitlen_rat_bounds:
  assumes "0 < (a::int)"
  shows "(2::rat) powi (bitlen a - 1) \<le> of_int a" and "(of_int a :: rat) < 2 powi (bitlen a)"
proof -
  from assms have ge1: "1 \<le> bitlen a"
    using bitlen_eq_zero_iff [of a] bitlen_nonneg [of a] by linarith
  from bitlen_bounds [OF assms] have lo: "2 ^ nat (bitlen a - 1) \<le> a"
    and hi: "a < 2 ^ nat (bitlen a)" by simp_all
  have "(2::rat) powi (bitlen a - 1) = 2 powi int (nat (bitlen a - 1))"
    using ge1 by simp
  also have "\<dots> = of_int (2 ^ nat (bitlen a - 1))" by (simp only: power_int_of_nat) simp
  also have "\<dots> \<le> of_int a" using lo by (simp only: of_int_le_iff)
  finally show "(2::rat) powi (bitlen a - 1) \<le> of_int a" .
  have "(of_int a :: rat) < of_int (2 ^ nat (bitlen a))" using hi by (simp only: of_int_less_iff)
  also have "\<dots> = 2 powi int (nat (bitlen a))" by (simp only: power_int_of_nat) simp
  also have "\<dots> = 2 powi (bitlen a)" using ge1 by simp
  finally show "(of_int a :: rat) < 2 powi (bitlen a)" .
qed

lemma ilog2_bounds:
  assumes "0 < x"
  shows "2 powi (ilog2 x) \<le> x" and "x < 2 powi (ilog2 x + 1)"
proof -
  obtain a b where q: "quotient_of x = (a, b)" by (cases "quotient_of x")
  then have b: "0 < b" by (rule quotient_of_denom_pos)
  from q have x: "x = of_int a / of_int b" by (rule quotient_of_div)
  with assms b have a: "0 < a" by (simp add: zero_less_divide_iff)
  define d where "d = bitlen a - bitlen b"
  have bq: "0 < (of_int b :: rat)" using b by simp
  have up: "x < 2 powi (d + 1)"
  proof -
    have "of_int a < (2::rat) powi (bitlen a)" using a by (rule bitlen_rat_bounds)
    moreover have "(2::rat) powi (bitlen b - 1) \<le> of_int b" using b by (rule bitlen_rat_bounds)
    ultimately have "of_int a * 2 powi (bitlen b - 1) < (2::rat) powi (bitlen a) * of_int b"
      using bq a by (intro mult_less_le_imp_less) simp_all
    then have "x * 2 powi (bitlen b - 1) < (2::rat) powi (bitlen a)"
      using bq by (simp add: x field_simps)
    then have "x < (2::rat) powi (bitlen a) / 2 powi (bitlen b - 1)"
      by (simp add: pos_less_divide_eq)
    also have "\<dots> = 2 powi (bitlen a - (bitlen b - 1))"
      by (simp add: power_int_diff)
    finally show ?thesis by (simp add: d_def algebra_simps)
  qed
  have low: "2 powi (d - 1) \<le> x"
  proof -
    have "(2::rat) powi (bitlen a - 1) \<le> of_int a" using a by (rule bitlen_rat_bounds)
    moreover have "of_int b < (2::rat) powi (bitlen b)" using b by (rule bitlen_rat_bounds)
    ultimately have "(2::rat) powi (bitlen a - 1) * of_int b \<le> of_int a * 2 powi (bitlen b)"
      using a b by (intro mult_mono) simp_all
    then have "(2::rat) powi (bitlen a - 1) \<le> x * 2 powi (bitlen b)"
      using bq by (simp add: x field_simps)
    then have "(2::rat) powi (bitlen a - 1) / 2 powi (bitlen b) \<le> x"
      by (simp add: pos_divide_le_eq)
    moreover have "(2::rat) powi (bitlen a - 1) / 2 powi (bitlen b) = 2 powi (bitlen a - 1 - bitlen b)"
      by (simp add: power_int_diff)
    ultimately show ?thesis by (simp add: d_def algebra_simps)
  qed
  have il: "ilog2 x = (if 2 powi d \<le> x then d else d - 1)"
    by (simp add: ilog2_def q d_def Let_def)
  show "2 powi (ilog2 x) \<le> x" using low by (simp add: il)
  show "x < 2 powi (ilog2 x + 1)" using up by (auto simp add: il not_le)
qed

lemma round_half_even_of_int: "round_half_even (of_int k) = k"
  by (simp add: round_half_even_def)

lemma round_half_even_ge:
  assumes "of_int k \<le> y"
  shows "k \<le> round_half_even y"
proof -
  from assms have "k \<le> \<lfloor>y\<rfloor>" by (simp add: le_floor_iff)
  then show ?thesis by (simp add: round_half_even_def Let_def)
qed

lemma round_half_even_le:
  assumes "y < of_int k - 1 / 2"
  shows "round_half_even y \<le> k - 1"
proof -
  from assms have "y < of_int k" by simp
  then have fl: "\<lfloor>y\<rfloor> \<le> k - 1" by (simp add: floor_less_iff)
  show ?thesis
  proof (cases "\<lfloor>y\<rfloor> = k - 1")
    case True
    then have "y - of_int \<lfloor>y\<rfloor> < 1 / 2" using assms by simp
    then show ?thesis using True by (simp add: round_half_even_def Let_def)
  next
    case False
    with fl have "\<lfloor>y\<rfloor> + 1 \<le> k - 1" by simp
    then show ?thesis by (simp add: round_half_even_def Let_def)
  qed
qed

lemma powi_2_less_exp:
  assumes "(2::rat) powi m < 2 powi n"
  shows "m < n"
proof (rule ccontr)
  assume "\<not> m < n"
  then have "n \<le> m" by simp
  then have "(2::rat) powi n \<le> 2 powi m" by (intro power_int_increasing) simp_all
  with assms show False by simp
qed

lemma round_double_of_int:
  assumes "0 < n" and "n < 2 ^ 53"
  shows "round_double (of_int n) = of_int n"
proof -
  let ?x = "of_int n :: rat"
  have pos: "0 < ?x" using assms(1) by simp
  define e where "e = ilog2 ?x"
  have lo: "2 powi e \<le> ?x" and hi: "?x < 2 powi (e + 1)"
    unfolding e_def using ilog2_bounds [OF pos] by simp_all
  have "(2::rat) powi 0 \<le> ?x" using assms(1) by simp
  from this hi have "(2::rat) powi 0 < 2 powi (e + 1)" by (rule le_less_trans)
  then have e0: "0 \<le> e" using powi_2_less_exp [of 0 "e + 1"] by simp
  have "?x < of_int (2 ^ 53)" using assms(2) by (simp only: of_int_less_iff)
  then have "?x < 2 powi 53" by simp
  with lo have "(2::rat) powi e < 2 powi 53" by (rule le_less_trans)
  then have e52: "e \<le> 52" using powi_2_less_exp [of e 53] by simp
  define k where "k = nat (52 - e)"
  have u: "(2::rat) powi (e - 52) = 1 / 2 ^ k"
  proof -
    have "e - 52 = - int k" using e52 by (simp add: k_def)
    then show ?thesis by (simp add: power_int_minus_divide)
  qed
  have "\<bar>?x\<bar> / 2 powi (e - 52) = of_int (n * 2 ^ k)"
    using assms(1) by (simp add: u)
  then have "round_half_even (\<bar>?x\<bar> / 2 powi (e - 52)) = n * 2 ^ k"
    by (simp only: round_half_even_of_int)
  moreover have "max e (- 1022) = e" using e0 by simp
  ultimately show ?thesis
    using pos assms(1) by (simp add: round_double_def Let_def e_def [symmetric] u)
qed

lemma round_double_pos:
  assumes "0 < x" and "- 1022 \<le> ilog2 x"
  shows "round_double x =
           of_int (round_half_even (x / 2 powi (ilog2 x - 52))) * 2 powi (ilog2 x - 52)"
  using assms by (simp add: round_double_def Let_def max_def)

lemma round_double_quotient:
  assumes p: "0 < p" "p < 2 ^ 53" and q: "0 < q" "q < 2 ^ 53"
  shows "of_int (p div q) \<le> round_double (of_int p / of_int q)"
    and "round_double (of_int p / of_int q) < of_int (p div q) + 1"
proof -
  define x :: rat where "x = of_int p / of_int q"
  define n where "n = p div q"
  define qr :: rat where "qr = of_int q"
  have qpos: "0 < qr" using q(1) by (simp add: qr_def)
  have xq: "x * qr = of_int p" using q(1) by (simp add: x_def qr_def)
  have p1: "(1::rat) \<le> of_int p" using p(1) by (simp flip: of_int_1_le_iff)
  have q1: "1 \<le> qr" using q(1) by (simp add: qr_def flip: of_int_1_le_iff)
  have p53: "(of_int p :: rat) < 2 powi 53"
  proof -
    have "(of_int p :: rat) < of_int (2 ^ 53)" using p(2) by (simp only: of_int_less_iff)
    then show ?thesis by simp
  qed
  have q53: "qr < 2 powi 53"
  proof -
    have "(of_int q :: rat) < of_int (2 ^ 53)" using q(2) by (simp only: of_int_less_iff)
    then show ?thesis by (simp add: qr_def)
  qed
  have pos: "0 < x" using p(1) q(1) by (simp add: x_def)
  define e where "e = ilog2 x"
  have lo: "2 powi e \<le> x" and hi: "x < 2 powi (e + 1)"
    unfolding e_def using ilog2_bounds [OF pos] by simp_all
  have "x * 1 \<le> x * qr" using q1 pos by (intro mult_left_mono) simp_all
  then have "x \<le> of_int p" by (simp add: xq)
  with p53 have "x < 2 powi 53" by simp
  with lo have "(2::rat) powi e < 2 powi 53" by (rule le_less_trans)
  then have e52: "e \<le> 52" using powi_2_less_exp [of e 53] by simp
  have "1 * qr \<le> of_int p * qr" using p1 qpos by (intro mult_right_mono) simp_all
  also have "\<dots> = x * qr * qr" by (simp add: xq)
  finally have "qr \<le> x * qr * qr" by simp
  then have "1 \<le> x * qr" using qpos by simp
  also have "x * qr < x * 2 powi 53" using q53 pos by (intro mult_strict_left_mono)
  finally have "1 / 2 powi 53 < x" by (simp add: pos_divide_less_eq)
  then have "(2::rat) powi (- 53) < x" by (simp add: power_int_minus_divide)
  from this hi have "(2::rat) powi (- 53) < 2 powi (e + 1)" by (rule less_trans)
  then have em: "- 54 < e" using powi_2_less_exp [of "- 53" "e + 1"] by simp
  define k where "k = nat (52 - e)"
  define N where "N = (2::int) ^ k"
  define nr :: rat where "nr = of_int N"
  have Npos: "0 < nr" by (simp add: nr_def N_def)
  have u: "(2::rat) powi (e - 52) = 1 / nr"
  proof -
    have "e - 52 = - int k" using e52 by (simp add: k_def)
    then show ?thesis by (simp add: power_int_minus_divide N_def nr_def)
  qed
  have twoN: "(2::rat) powi (53 - e) = 2 * nr"
  proof -
    have "53 - e = int (Suc k)" using e52 by (simp add: k_def)
    then have "(2::rat) powi (53 - e) = 2 ^ Suc k" by (simp only: power_int_of_nat)
    then show ?thesis by (simp add: N_def nr_def)
  qed
  have "round_double x =
      of_int (round_half_even (x / 2 powi (e - 52))) * 2 powi (e - 52)"
    unfolding e_def using pos em by (intro round_double_pos) (simp_all add: e_def)
  then have rd: "round_double x = of_int (round_half_even (x * nr)) / nr"
    by (simp only: u) simp
  have nx: "of_int n \<le> x"
  proof -
    have "\<lfloor>x\<rfloor> = n" unfolding x_def n_def by (rule floor_divide_of_int_eq)
    then show ?thesis using of_int_floor_le [of x] by simp
  qed
  have "of_int n * nr \<le> x * nr"
    using nx Npos by (intro mult_right_mono) simp_all
  then have "of_int (n * N) \<le> x * nr" by (simp add: nr_def)
  then have "n * N \<le> round_half_even (x * nr)" by (rule round_half_even_ge)
  then have "(of_int (n * N) :: rat) \<le> of_int (round_half_even (x * nr))"
    by (simp only: of_int_le_iff)
  then have "of_int n * nr \<le> of_int (round_half_even (x * nr))" by (simp add: nr_def)
  then have low: "of_int n \<le> round_double x"
    using Npos by (simp add: rd pos_le_divide_eq)
  have "p < (n + 1) * q"
  proof -
    have "p = n * q + p mod q" by (simp add: n_def)
    moreover have "p mod q < q" using q(1) by simp
    ultimately have "p < n * q + q" by linarith
    then show ?thesis by (simp add: algebra_simps)
  qed
  then have "p + 1 \<le> (n + 1) * q" by simp
  then have "(of_int (p + 1) :: rat) \<le> of_int ((n + 1) * q)" by (simp only: of_int_le_iff)
  then have "of_int p + 1 \<le> (of_int (n + 1) :: rat) * qr" by (simp add: qr_def)
  then have "x * qr + 1 \<le> of_int (n + 1) * qr" by (simp only: xq)
  then have "x * qr \<le> (of_int (n + 1) - 1 / qr) * qr"
    using qpos by (simp add: algebra_simps)
  then have xle: "x \<le> of_int (n + 1) - 1 / qr"
    using qpos by (simp only: mult_le_cancel_right_pos)
  have "qr * 2 powi e \<le> qr * x"
    using lo qpos by (intro mult_left_mono) simp_all
  also have "\<dots> = of_int p" using xq by (simp add: mult.commute)
  also have "\<dots> < 2 powi 53" by (rule p53)
  finally have "qr * 2 powi e < (2::rat) powi 53" .
  then have "qr < (2::rat) powi 53 / 2 powi e"
    by (simp add: pos_less_divide_eq)
  also have "\<dots> = 2 powi (53 - e)" by (simp add: power_int_diff)
  finally have q2N: "qr < 2 * nr" by (simp add: twoN)
  have half: "1 / 2 < nr / qr"
    using q2N qpos by (simp add: pos_less_divide_eq)
  have "x * nr \<le> (of_int (n + 1) - 1 / qr) * nr"
    using xle Npos by (intro mult_right_mono) simp_all
  also have "\<dots> = of_int ((n + 1) * N) - nr / qr"
    by (simp add: algebra_simps nr_def)
  also have "\<dots> < of_int ((n + 1) * N) - 1 / 2" using half by simp
  finally have "round_half_even (x * nr) \<le> (n + 1) * N - 1"
    by (rule round_half_even_le)
  then have "(of_int (round_half_even (x * nr)) :: rat) \<le> of_int ((n + 1) * N - 1)"
    by (simp only: of_int_le_iff)
  then have "of_int (round_half_even (x * nr)) \<le> (of_int n + 1) * nr - 1"
    by (simp add: nr_def)
  then have "round_double x \<le> ((of_int n + 1) * nr - 1) / nr"
    using Npos by (simp only: rd divide_right_mono less_imp_le)
  also have "\<dots> = of_int n + 1 - 1 / nr"
    using Npos by (simp add: field_simps)
  also have "\<dots> < of_int n + 1" using Npos by simp
  finally have up: "round_double x < of_int n + 1" .
  show "of_int (p div q) \<le> round_double (of_int p / of_int q)"
    using low by (simp only: x_def n_def)
  show "round_double (of_int p / of_int q) < of_int (p div q) + 1"
    using up by (simp only: x_def n_def)
qed

lemma ilog2_less:
  assumes "0 < x" and "x < 2 powi m"
  shows "ilog2 x < m"
proof -
  from ilog2_bounds(1) [OF assms(1)] assms(2) have "(2::rat) powi (ilog2 x) < 2 powi m"
    by (rule le_less_trans)
  then show ?thesis by (rule powi_2_less_exp)
qed

lemma to_double_of_int:
  assumes "0 \<le> n" and "n < 2 ^ 53"
  shows "to_double (of_int n) = Finite (of_int n)"
proof (cases "n = 0")
  case True
  then show ?thesis by (simp add: to_double_def round_double_def)
next
  case False
  with assms(1) have pos: "0 < n" by simp
  have rd: "round_double (of_int n) = of_int n"
    using pos assms(2) by (rule round_double_of_int)
  have "(of_int n :: rat) < of_int (2 ^ 53)" using assms(2) by (simp only: of_int_less_iff)
  then have "(of_int n :: rat) < 2 powi 53" by simp
  then have "ilog2 (of_int n) < 53" using pos by (intro ilog2_less) simp_all
  then show ?thesis using pos by (simp add: to_double_def rd Let_def)
qed

lemma to_double_quotient:
  assumes p: "0 < p" "p < 2 ^ 53" and q: "0 < q" "q < 2 ^ 53"
  shows "\<exists>r. to_double (of_int p / of_int q) = Finite r \<and>
             of_int (p div q) \<le> r \<and> r < of_int (p div q) + 1"
proof -
  let ?r = "round_double (of_int p / of_int q)"
  have low: "of_int (p div q) \<le> ?r" and up: "?r < of_int (p div q) + 1"
    using round_double_quotient [OF p q] by simp_all
  have n0: "0 \<le> p div q" using p(1) q(1) by (simp add: pos_imp_zdiv_nonneg_iff)
  then have r0: "0 \<le> ?r" using low by (meson of_int_0_le_iff order_trans)
  have "p div q \<le> p div 1" using p(1) q(1) by (intro zdiv_mono2) simp_all
  then have "p div q \<le> p" by simp
  then have "p div q + 1 \<le> 2 ^ 53" using p(2) by simp
  then have "(of_int (p div q + 1) :: rat) \<le> of_int (2 ^ 53)" by (simp only: of_int_le_iff)
  then have "(of_int (p div q) :: rat) + 1 \<le> 2 powi 53" by simp
  with up have r53: "?r < 2 powi 53" by simp
  have "?r = 0 \<or> ilog2 \<bar>?r\<bar> < 1024"
  proof (cases "?r = 0")
    case True
    then show ?thesis by simp
  next
    case False
    with r0 have "0 < ?r" by simp
    with r53 have "ilog2 ?r < 53" by (intro ilog2_less)
    then show ?thesis using r0 by simp
  qed
  then have "to_double (of_int p / of_int q) = Finite ?r"
    by (simp add: to_double_def Let_def)
  with low up show ?thesis by blast
qed

lemma double_to_ulong_floor:
  assumes "of_int n \<le> r" and "r < of_int n + 1" and "0 \<le> n" and "n < 2 ^ 32"
  shows "double_to_ulong (Finite r) = Some (word_of_int n)"
proof -
  have fl: "\<lfloor>r\<rfloor> = n" using assms(1,2) by (intro floor_unique) simp_all
  have "0 \<le> r" using assms(1,3) by (meson of_int_0_le_iff order_trans)
  then have "truncate_rat r = n" by (simp add: truncate_rat_def fl)
  then show ?thesis using assms(3,4) by (simp add: Let_def)
qed

lemma target_frame_exact:
  assumes st: "0 <s st" and spf: "0 < spf"
    and exact: "sint st * uint samplerate < 2 ^ 53"
    and fits: "sint st * uint samplerate div uint spf < 2 ^ 32"
  shows "target_frame st samplerate spf =
           Some (word_of_int (sint st * uint samplerate div uint spf))"
proof -
  define p where "p = sint st * uint samplerate"
  define q where "q = uint spf"
  have s0: "0 < sint st" using st by (simp add: word_sless_alt)
  have "sint st < 2 ^ (LENGTH(32) - 1)" by (rule sint_lt)
  then have s53: "sint st < 2 ^ 53" by simp
  have r0: "0 \<le> uint samplerate" by simp
  have "uint samplerate < 2 ^ LENGTH(32)" by (rule uint_bounded)
  then have r53: "uint samplerate < 2 ^ 53" by simp
  have q0: "0 < q" using spf by (simp add: q_def word_less_def)
  have "uint spf < 2 ^ LENGTH(32)" by (rule uint_bounded)
  then have q53: "q < 2 ^ 53" by (simp add: q_def)
  have p0: "0 \<le> p" using s0 by (simp add: p_def)
  have p53: "p < 2 ^ 53" using exact by (simp add: p_def)
  have a: "to_double (of_int (sint st)) = Finite (of_int (sint st))"
    using s0 s53 by (intro to_double_of_int) simp_all
  have b: "to_double (of_nat (unat samplerate)) = Finite (of_int (uint samplerate))"
    using to_double_of_int [OF r0 r53] by simp
  have c: "to_double (of_nat (unat spf)) = Finite (of_int q)"
    using to_double_of_int [of q] q0 q53 by (simp add: q_def)
  have m: "double_mul (Finite (of_int (sint st))) (Finite (of_int (uint samplerate))) =
      Finite (of_int p)"
    using to_double_of_int [OF p0 p53] by (simp add: p_def)
  have qne: "(of_int q :: rat) \<noteq> 0" using q0 by simp
  have d: "double_div (Finite (of_int p)) (Finite (of_int q)) =
      to_double (of_int p / of_int q)"
    using qne by simp
  have tf: "target_frame st samplerate spf =
      double_to_ulong (to_double (of_int p / of_int q))"
    by (simp only: target_frame_def a b c m d)
  have n0: "0 \<le> p div q" using p0 q0 by (simp add: pos_imp_zdiv_nonneg_iff)
  have n32: "p div q < 2 ^ 32" using fits by (simp add: p_def q_def)
  show ?thesis
  proof (cases "p = 0")
    case True
    have "to_double (0 :: rat) = Finite 0" by (simp add: to_double_def round_double_def)
    moreover have "double_to_ulong (Finite 0) = Some (word_of_int 0)"
      by (rule double_to_ulong_floor) simp_all
    ultimately have "target_frame st samplerate spf = Some (word_of_int (p div q))"
      using True by (simp only: tf) simp
    then show ?thesis by (simp only: p_def q_def)
  next
    case False
    with p0 have "0 < p" by simp
    from to_double_quotient [OF this p53 q0 q53] obtain r where
      r: "to_double (of_int p / of_int q) = Finite r"
         "of_int (p div q) \<le> r" "r < of_int (p div q) + 1" by blast
    have "double_to_ulong (Finite r) = Some (word_of_int (p div q))"
      using r(2,3) n0 n32 by (rule double_to_ulong_floor)
    then have "target_frame st samplerate spf = Some (word_of_int (p div q))"
      by (simp only: tf r(1))
    then show ?thesis by (simp only: p_def q_def)
  qed
qed

lemma seek_stage_exact:
  assumes st: "0 <s st" and spf: "0 < samples_per_frame cfg"
    and exact: "sint st * uint samplerate < 2 ^ 53"
    and fits: "sint st * uint samplerate div uint (samples_per_frame cfg) < 2 ^ 32"
  shows "seek_stage st samplerate cfg seek_ok =
           Some (let tf = word_of_int (sint st * uint samplerate div
                            uint (samples_per_frame cfg)) :: ulong
                 in if tf < mp4_frame_nsamples cfg then
                      (if seek_ok (unat tf)
                       then ([Mp4read_seek (unat tf), G_print ''Decoder: Seeked''],
                             Some (unat tf))
                       else ([Mp4read_seek (unat tf), G_printerr ''Decoder: Failed to seek''],
                             None))
                    else ([], None))"
  using st by (simp add: seek_stage_def target_frame_exact [OF st spf exact fits] Let_def)

subsection \<open>C3: the seek at the start of the decode loop\<close>

text \<open>
  C3 says that for a run with a positive start time the target frame is
  \<open>startTimeSeconds * sampleRate / samplesPerFrame\<close>, with \<open>samplesPerFrame\<close> the total
  sample count divided by the total frame count when both are positive and 1024
  otherwise, that the decoder seeks only when the target frame is below the total frame
  count, and that it otherwise plays from the start of the stream. The worker is started
  at 30 seconds on a file of 1000 frames and 1024000 samples decoded at 44100 Hz (a
  little over 23 seconds): the target frame is 1291, which is out of range, and the loop
  goes on without any \<^verbatim>\<open>mp4read_seek\<close>, reading the frames from wherever
  \<^verbatim>\<open>mp4read_open\<close> left the demuxer. Positioning the demuxer at the first frame is what
  the branch for a start time of zero does, with \<^verbatim>\<open>mp4read_seek(0)\<close>; the out-of-range
  branch lacks it.
\<close>

theorem decode_loop_seek_out_of_range_no_rewind:
  "samples_per_frame example_config = 1024 \<and>
   target_frame 30 44100 (samples_per_frame example_config) = Some 1291 \<and>
   \<not> (1291 :: ulong) < mp4_frame_nsamples example_config \<and>
   seek_stage 30 44100 example_config (\<lambda>n. True) = Some ([], None) \<and>
   seek_stage 0 44100 example_config (\<lambda>n. True) = Some ([Mp4read_seek 0], Some 0) \<and>
   decode_loop
     \<lparr>stop_flag = False, running = True, thread_id = 7, current_filepath = ''a.m4a'',
      start_time = 30\<rparr>
     \<lparr>de_mp4read_open = Some example_config, de_NeAACDecOpen = True,
      de_NeAACDecInit2 = Some (44100, 2), de_mp4read_seek = (\<lambda>n. True),
      de_open_pipe = True, de_stop_flag = stop_at, de_frames = frames\<rparr> =
     Some ([G_print ''Decoder: Starting'', Lock_mp4_mutex, Mp4read_open ''a.m4a'',
            NeAACDecOpen, NeAACDecSetConfiguration, NeAACDecInit2,
            G_print ''Decoder: Starting for'', Open_pipe] @
           decode_frames stop_at 0 (frames None) @
           [Close_pipe, NeAACDecClose, Mp4read_close, G_print ''Decoder: Thread exiting.'',
            Unlock_mp4_mutex]) \<and>
   decode_loop
     \<lparr>stop_flag = False, running = True, thread_id = 7, current_filepath = ''a.m4a'',
      start_time = 0\<rparr>
     \<lparr>de_mp4read_open = Some example_config, de_NeAACDecOpen = True,
      de_NeAACDecInit2 = Some (44100, 2), de_mp4read_seek = (\<lambda>n. True),
      de_open_pipe = True, de_stop_flag = stop_at, de_frames = frames\<rparr> =
     Some ([G_print ''Decoder: Starting'', Lock_mp4_mutex, Mp4read_open ''a.m4a'',
            NeAACDecOpen, NeAACDecSetConfiguration, NeAACDecInit2,
            G_print ''Decoder: Starting for'', Mp4read_seek 0, Open_pipe] @
           decode_frames stop_at 0 (frames (Some 0)) @
           [Close_pipe, NeAACDecClose, Mp4read_close, G_print ''Decoder: Thread exiting.'',
            Unlock_mp4_mutex])"
proof -
  have spf: "samples_per_frame example_config = 1024"
    by (simp add: samples_per_frame_def)
  have pos: "(0 :: cint) <s 30" by (simp add: word_sless_alt)
  have tf: "target_frame 30 44100 1024 = Some 1291"
    using target_frame_exact [of 30 1024 44100] pos by simp
  have out: "seek_stage 30 44100 example_config (\<lambda>n. True) = Some ([], None)"
    using pos by (simp add: seek_stage_def spf tf)
  have zero: "seek_stage 0 44100 example_config (\<lambda>n. True) = Some ([Mp4read_seek 0], Some 0)"
    by (simp add: seek_stage_def)
  show ?thesis
    by (simp add: spf tf out zero decode_loop_def Let_def)
qed

end
